theory Spec2Isabelle
  imports Complex_Main "HOL-Library.Char_ord" "HOL-Library.List_Lexorder"
begin

section \<open>The training driver: \<open>main\<close> of main.py\<close>

text \<open>
  \<open>main\<close> orchestrates collaborators that live outside main.py (the session, the
  data loaders, the summary writers).  Each call to a collaborator is an entry of a
  trace; whether the call raises, and what a validation run returns, is decided by a
  \<open>world\<close> that sees the trace so far.  A call that raises leaves no entry.
  Exceptions arise at these calls and at the reads of unbound names and missing keys; an
  interrupt between two calls is not modelled.
  Floats are modelled as reals (no NaN, no rounding); Python's unbounded integers as
  \<open>int\<close>.
\<close>

datatype exn =
    NameError string
  | KeyError string
  | TypeError
  | ZeroDivisionError
  | ValueError
  | KeyboardInterrupt
  | Raised string

datatype call =
    Train int
  | Validate int
  | SaveCheckpoint "string option" real bool
  | SaveEnsembleCheckpoint real int
  | ReInitialiseModel
  | ExportScalars string
  | CloseSummary string

text \<open>
  A truthy \<open>ensemble_properties\<close> dictionary: \<open>ensemble_type\<close> may be missing
  (\<open>None\<close>) or any string; \<open>ensemble_size\<close> and \<open>cycle_length\<close> are integers,
  \<open>initial_lr\<close> is a float.
\<close>

record ensemble =
  ensemble_type :: "string option"
  ensemble_size :: int
  cycle_length :: int
  initial_lr :: real

text \<open>
  What \<open>PyLL()\<close> hands to \<open>main\<close>.  \<open>has_val\<close> is \<open>"val" in datasets\<close>,
  \<open>evaluate_val\<close> is \<open>config.evaluate == "val"\<close>, \<open>n_train\<close> is
  \<open>len(loader_train.dataset)\<close>, \<open>summaries\<close> lists the keys of the summaries
  dictionary in order, and \<open>ensemble_properties = None\<close> stands for a falsy value
  (\<open>None\<close> or an empty dictionary).
\<close>

record session =
  has_val :: bool
  evaluate_val :: bool
  start_epoch :: int
  session_best_performance :: real
  training_epochs :: int
  ensemble_properties :: "ensemble option"
  n_train :: int
  summaries :: "string list"

record world =
  raises :: "call list \<Rightarrow> call \<Rightarrow> exn option"
  validate_result :: "call list \<Rightarrow> real"

text \<open>The local variables of \<open>main\<close>; \<open>None\<close> is an unbound name.\<close>

record locals =
  trace :: "call list"
  best_performance :: real
  performance :: "real option"
  total_epochs :: "int option"
  member_index :: "int option"
  epoch :: "int option"

type_synonym outcome = "exn option \<times> locals"

definition invoke :: "world \<Rightarrow> call \<Rightarrow> locals \<Rightarrow> outcome" where
  "invoke w c s =
     (case raises w (trace s) c of
        Some x \<Rightarrow> (Some x, s)
      | None \<Rightarrow> (None, s\<lparr>trace := trace s @ [c]\<rparr>))"

text \<open>
  \<open>int(a / b)\<close> on integers: the quotient truncated towards zero.  (Python divides
  as floats; for operands below \<open>2^53\<close> in absolute value the truncation is exact.)
\<close>

definition int_of_quotient :: "int \<Rightarrow> int \<Rightarrow> int" where
  "int_of_quotient a b = sgn a * sgn b * (\<bar>a\<bar> div \<bar>b\<bar>)"

definition recognised :: "ensemble \<Rightarrow> bool" where
  "recognised ep =
     (ensemble_type ep = Some ''deep_ensemble'' \<or> ensemble_type ep = Some ''snapshot_ensemble'')"

text \<open>\<open>[cycle_length * cp for cp in range(1, ensemble_size + 1)]\<close>\<close>

definition checkpoints :: "ensemble \<Rightarrow> int list" where
  "checkpoints ep = map (\<lambda>cp. cycle_length ep * cp) [1..ensemble_size ep]"

text \<open>Lines 61-75: the head of the \<open>try\<close> block.\<close>

definition setup_epochs :: "session \<Rightarrow> locals \<Rightarrow> outcome" where
  "setup_epochs cfg s =
     (case ensemble_properties cfg of
        None \<Rightarrow> (None, s\<lparr>total_epochs := Some (training_epochs cfg)\<rparr>)
      | Some ep \<Rightarrow>
          if recognised ep then
            (let s1 = s\<lparr>total_epochs := Some (ensemble_size ep * cycle_length ep)\<rparr>
             in if cycle_length ep = 0 then (Some ZeroDivisionError, s1)
                else (None, s1\<lparr>member_index :=
                        Some (int_of_quotient (start_epoch cfg) (cycle_length ep))\<rparr>))
          else (None, s))"

text \<open>Line 79: \<open>train(session, loader_train, epoch, summaries["train"], ...)\<close>.\<close>

definition train_call :: "world \<Rightarrow> session \<Rightarrow> int \<Rightarrow> locals \<Rightarrow> outcome" where
  "train_call w cfg e s =
     (if ''train'' \<in> set (summaries cfg) then invoke w (Train e) s
      else (Some (KeyError ''train''), s))"

text \<open>Lines 81-88: validation, the best performance and the regular checkpoint.\<close>

definition validate_and_save :: "world \<Rightarrow> session \<Rightarrow> int \<Rightarrow> locals \<Rightarrow> outcome" where
  "validate_and_save w cfg e s =
     (if has_val cfg then
        (case invoke w (Validate ((e + 1) * n_train cfg)) s of
           (Some x, s1) \<Rightarrow> (Some x, s1)
         | (None, s1) \<Rightarrow>
             (let p = validate_result w (trace s);
                  is_best = (p > best_performance s1);
                  s2 = s1\<lparr>performance := Some p,
                          best_performance := max p (best_performance s1)\<rparr>
              in invoke w (SaveCheckpoint None p is_best) s2))
      else (None, s))"

text \<open>Lines 92-107: the ensemble member checkpoint and the re-initialisation.\<close>

definition ensemble_step :: "world \<Rightarrow> session \<Rightarrow> int \<Rightarrow> locals \<Rightarrow> outcome" where
  "ensemble_step w cfg e s =
     (case ensemble_properties cfg of
        None \<Rightarrow> (None, s)
      | Some ep \<Rightarrow>
          if recognised ep then
            if e + 1 \<in> set (checkpoints ep) then
              (case member_index s of
                 None \<Rightarrow> (Some (NameError ''m''), s)
               | Some k \<Rightarrow>
                   (case performance s of
                      None \<Rightarrow> (Some (NameError ''performance''), s)
                    | Some p \<Rightarrow>
                        (case invoke w (SaveEnsembleCheckpoint p k) s of
                           (Some x, s1) \<Rightarrow> (Some x, s1)
                         | (None, s1) \<Rightarrow>
                             (let s2 = s1\<lparr>member_index := Some (k + 1)\<rparr>
                              in if ensemble_type ep = Some ''deep_ensemble''
                                 then invoke w ReInitialiseModel s2
                                 else (None, s2)))))
            else (None, s)
          else (None, s))"

text \<open>Lines 78-107: one iteration of the epoch loop.\<close>

definition epoch_body :: "world \<Rightarrow> session \<Rightarrow> int \<Rightarrow> locals \<Rightarrow> outcome" where
  "epoch_body w cfg e s =
     (case train_call w cfg e s of
        (Some x, s1) \<Rightarrow> (Some x, s1)
      | (None, s1) \<Rightarrow>
          (case validate_and_save w cfg e s1 of
             (Some x, s2) \<Rightarrow> (Some x, s2)
           | (None, s2) \<Rightarrow> ensemble_step w cfg e s2))"

text \<open>Line 77: \<open>for epoch in range(start_epoch, total_epochs)\<close>, over the epochs left.\<close>

fun epoch_loop :: "world \<Rightarrow> session \<Rightarrow> int list \<Rightarrow> locals \<Rightarrow> outcome" where
  "epoch_loop w cfg [] s = (None, s)"
| "epoch_loop w cfg (e # es) s =
     (case epoch_body w cfg e (s\<lparr>epoch := Some e\<rparr>) of
        (Some x, s1) \<Rightarrow> (Some x, s1)
      | (None, s1) \<Rightarrow> epoch_loop w cfg es s1)"

definition try_body :: "world \<Rightarrow> session \<Rightarrow> locals \<Rightarrow> outcome" where
  "try_body w cfg s =
     (case setup_epochs cfg s of
        (Some x, s1) \<Rightarrow> (Some x, s1)
      | (None, s1) \<Rightarrow>
          (case total_epochs s1 of
             None \<Rightarrow> (Some (NameError ''total_epochs''), s1)
           | Some t \<Rightarrow> epoch_loop w cfg [start_epoch cfg..t - 1] s1))"

text \<open>Lines 115-117: every summary writer is exported and closed.\<close>

fun close_summaries :: "world \<Rightarrow> string list \<Rightarrow> locals \<Rightarrow> outcome" where
  "close_summaries w [] s = (None, s)"
| "close_summaries w (n # ns) s =
     (case invoke w (ExportScalars n) s of
        (Some x, s1) \<Rightarrow> (Some x, s1)
      | (None, s1) \<Rightarrow>
          (case invoke w (CloseSummary n) s1 of
             (Some x, s2) \<Rightarrow> (Some x, s2)
           | (None, s2) \<Rightarrow> close_summaries w ns s2))"

definition abort_checkpoint :: call where
  "abort_checkpoint = SaveCheckpoint (Some ''user_abort.pth.tar'') (- 1) False"

text \<open>Lines 109-118: the \<open>finally\<close> block.\<close>

definition finally_block :: "world \<Rightarrow> session \<Rightarrow> locals \<Rightarrow> outcome" where
  "finally_block w cfg s =
     (case epoch s of
        None \<Rightarrow> (Some (NameError ''epoch''), s)
      | Some e \<Rightarrow>
          (case total_epochs s of
             None \<Rightarrow> (Some (NameError ''total_epochs''), s)
           | Some t \<Rightarrow>
               (case (if e + 1 \<noteq> t then invoke w abort_checkpoint s else (None, s)) of
                  (Some x, s1) \<Rightarrow> (Some x, s1)
                | (None, s1) \<Rightarrow> close_summaries w (summaries cfg) s1)))"

text \<open>
  Lines 60-118: \<open>try ... finally\<close>.  An exception of the \<open>finally\<close> block replaces the
  one of the body; otherwise the body's exception is raised again.
\<close>

definition training_loop :: "world \<Rightarrow> session \<Rightarrow> locals \<Rightarrow> outcome" where
  "training_loop w cfg s =
     (case try_body w cfg s of
        (r, s1) \<Rightarrow>
          (case finally_block w cfg s1 of
             (Some y, s2) \<Rightarrow> (Some y, s2)
           | (None, s2) \<Rightarrow> (r, s2)))"

definition initial_locals :: "session \<Rightarrow> locals" where
  "initial_locals cfg =
     \<lparr>trace = [], best_performance = session_best_performance cfg, performance = None,
      total_epochs = None, member_index = None, epoch = None\<rparr>"

text \<open>
  Lines 32-57, the part of \<open>main\<close> before the \<open>try\<close>: \<open>summaries["val"]\<close> is
  read when there is a validation set; \<open>config.evaluate == "val"\<close> calls
  \<open>validate\<close> with six of its seven arguments (or reads the unbound
  \<open>loader_val\<close>); a fresh run validates once.
\<close>

definition before_try :: "world \<Rightarrow> session \<Rightarrow> outcome" where
  "before_try w cfg =
     (let s0 = initial_locals cfg in
      if has_val cfg \<and> ''val'' \<notin> set (summaries cfg) then (Some (KeyError ''val''), s0)
      else if evaluate_val cfg then
        (Some (if has_val cfg then TypeError else NameError ''loader_val''), s0)
      else if start_epoch cfg = 0 \<and> has_val cfg then invoke w (Validate 0) s0
      else (None, s0))"

definition main :: "world \<Rightarrow> session \<Rightarrow> outcome" where
  "main w cfg =
     (case before_try w cfg of
        (Some x, s1) \<Rightarrow> (Some x, s1)
      | (None, s1) \<Rightarrow> training_loop w cfg s1)"

subsection \<open>Reading a trace\<close>

text \<open>The epochs trained, in order, and the number of re-initialisations.\<close>

fun trained :: "call list \<Rightarrow> int list" where
  "trained [] = []"
| "trained (Train e # cs) = e # trained cs"
| "trained (c # cs) = trained cs"

definition reinitialisations :: "call list \<Rightarrow> nat" where
  "reinitialisations tr = count_list tr ReInitialiseModel"

text \<open>The calls of the \<open>finally\<close> block for the summary writers, when none raises.\<close>

definition closing_calls :: "string list \<Rightarrow> call list" where
  "closing_calls ns = concat (map (\<lambda>n. [ExportScalars n, CloseSummary n]) ns)"

text \<open>
  The regular checkpoints of a trace, \<open>session.save_checkpoint(performance, is_best)\<close>,
  as pairs of the performance and the flag.
\<close>

fun regular_checkpoints :: "call list \<Rightarrow> (real \<times> bool) list" where
  "regular_checkpoints [] = []"
| "regular_checkpoints (SaveCheckpoint None p b # cs) = (p, b) # regular_checkpoints cs"
| "regular_checkpoints (c # cs) = regular_checkpoints cs"

text \<open>
  What is expected of them: starting from the best performance \<open>b\<close>, every performance
  is flagged exactly when it is strictly greater than the best before it, and the best
  after them is their running maximum.
\<close>

fun flag_best :: "real \<Rightarrow> real list \<Rightarrow> (real \<times> bool) list" where
  "flag_best b [] = []"
| "flag_best b (p # ps) = (p, p > b) # flag_best (max p b) ps"

fun running_best :: "real \<Rightarrow> real list \<Rightarrow> real" where
  "running_best b [] = b"
| "running_best b (p # ps) = running_best (max p b) ps"

subsection \<open>Example runs\<close>

text \<open>A world where no call raises, and one where training is interrupted at epoch 0.\<close>

definition quiet :: world where
  "quiet = \<lparr>raises = (\<lambda>tr c. None), validate_result = (\<lambda>tr. real (length tr) / 10)\<rparr>"

definition interrupted :: world where
  "interrupted =
     \<lparr>raises = (\<lambda>tr c. if c = Train 0 then Some KeyboardInterrupt else None),
      validate_result = (\<lambda>tr. 1 / 2)\<rparr>"

text \<open>A world where the validation result falls after the first epoch.\<close>

definition peaked :: world where
  "peaked =
     \<lparr>raises = (\<lambda>tr c. None),
      validate_result = (\<lambda>tr. if length tr < 3 then 1 / 2 else 1 / 5)\<rparr>"

definition plain_run :: "int \<Rightarrow> session" where
  "plain_run n =
     \<lparr>has_val = True, evaluate_val = False, start_epoch = 0, session_best_performance = 0,
      training_epochs = n, ensemble_properties = None, n_train = 10,
      summaries = [''train'', ''val'']\<rparr>"

definition ensemble_run :: "bool \<Rightarrow> string \<Rightarrow> int \<Rightarrow> int \<Rightarrow> session" where
  "ensemble_run val ty sz len =
     \<lparr>has_val = val, evaluate_val = False, start_epoch = 0, session_best_performance = 0,
      training_epochs = 0,
      ensemble_properties =
        Some \<lparr>ensemble_type = Some ty, ensemble_size = sz, cycle_length = len, initial_lr = 1 / 10\<rparr>,
      n_train = 10, summaries = (if val then [''train'', ''val''] else [''train''])\<rparr>"

section \<open>Validation: \<open>validate\<close> of main.py\<close>

text \<open>
  One sample as the validation loop sees it: its ID, the row \<open>sigmoid(model(input))\<close>
  and its raw target row.
\<close>

record sample =
  ident :: string
  prediction :: "real list"
  target :: "real list"





record stored =
  predictions :: "real list list"
  targets :: "real list list"
  sample_keys :: "string list"



subsection \<open>Grouping the views of a well\<close>

text \<open>\<open>key.split("-")\<close> and \<open>"-".join(tokens)\<close>.\<close>

fun split_on :: "char \<Rightarrow> string \<Rightarrow> string list" where
  "split_on c [] = [[]]"
| "split_on c (x # xs) =
     (if x = c then [] # split_on c xs
      else case split_on c xs of
             [] \<Rightarrow> [[x]]
           | t # ts \<Rightarrow> (x # t) # ts)"

fun join :: "string \<Rightarrow> string list \<Rightarrow> string" where
  "join sep [] = []"
| "join sep [t] = t"
| "join sep (t # ts) = t @ sep @ join sep ts"

text \<open>Lines 252 and 256: \<open>"-".join(key.split("-")[0:2])\<close>.\<close>

definition group_key :: "string \<Rightarrow> string" where
  "group_key k = join ''-'' (take 2 (split_on CHR ''-'' k))"

text \<open>
  \<open>DataFrame(data, index).groupby(by)\<close>: every row joins the group of its key, in the
  order of the rows; a data frame whose index and data differ in length is a
  \<open>ValueError\<close>.  The aggregation returns the groups sorted by key, and
  \<open>sort_index\<close> sorts by key again.
\<close>

fun add_to_group :: "string \<Rightarrow> 'a \<Rightarrow> (string \<times> 'a list) list \<Rightarrow> (string \<times> 'a list) list" where
  "add_to_group k r [] = [(k, [r])]"
| "add_to_group k r ((k', rs) # gs) =
     (if k = k' then (k', rs @ [r]) # gs else (k', rs) # add_to_group k r gs)"

definition collect_groups ::
  "(string \<Rightarrow> string) \<Rightarrow> (string \<times> 'a) list \<Rightarrow> (string \<times> 'a list) list" where
  "collect_groups by df = foldl (\<lambda>gs (i, r). add_to_group (by i) r gs) [] df"

definition groupby ::
  "(string \<Rightarrow> string) \<Rightarrow> (string \<times> 'a) list \<Rightarrow> (string \<times> 'a list) list" where
  "groupby by df = sort_key fst (collect_groups by df)"

definition sort_index :: "(string \<times> 'a) list \<Rightarrow> (string \<times> 'a) list" where
  "sort_index df = sort_key fst df"

definition data_frame :: "'a list \<Rightarrow> string list \<Rightarrow> exn + (string \<times> 'a) list" where
  "data_frame rows index = (if length rows = length index then Inr (zip index rows) else Inl ValueError)"

text \<open>The mean of every column over the rows of a group, and the first row of a group.\<close>

definition mean_rows :: "nat \<Rightarrow> real list list \<Rightarrow> real list" where
  "mean_rows width rs = map (\<lambda>j. (\<Sum>r\<leftarrow>rs. r ! j) / real (length rs)) [0..<width]"

definition group_mean :: "nat \<Rightarrow> (string \<times> real list list) list \<Rightarrow> (string \<times> real list) list" where
  "group_mean width gs = map (\<lambda>(k, rs). (k, mean_rows width rs)) gs"

definition group_first :: "(string \<times> 'a list list) list \<Rightarrow> (string \<times> 'a list) list" where
  "group_first gs = map (\<lambda>(k, rs). (k, case rs of [] \<Rightarrow> [] | r # _ \<Rightarrow> r)) gs"

text \<open>Lines 251-258.\<close>

definition aggregate :: "nat \<Rightarrow> stored \<Rightarrow> exn + stored" where
  "aggregate n_tasks st =
     (case data_frame (predictions st) (sample_keys st) of
        Inl x \<Rightarrow> Inl x
      | Inr df \<Rightarrow>
          (let ps = sort_index (group_mean n_tasks (groupby group_key df)) in
           case data_frame (targets st) (sample_keys st) of
             Inl x \<Rightarrow> Inl x
           | Inr df' \<Rightarrow>
               (let ts = sort_index (group_first (groupby group_key df')) in
                Inr \<lparr>predictions = map snd ps, targets = map snd ts,
                     sample_keys = map fst ts\<rparr>)))"

subsection \<open>The AUC of every class\<close>

definition column :: "nat \<Rightarrow> 'a list list \<Rightarrow> 'a list" where
  "column i mat = map (\<lambda>r. r ! i) mat"

text \<open>Line 269: the rows whose target is 0, then the rows whose target is 1.\<close>

definition auc_samples :: "real list \<Rightarrow> nat list" where
  "auc_samples y = [j \<leftarrow> [0..<length y]. y ! j = 0] @ [j \<leftarrow> [0..<length y]. y ! j = 1]"

text \<open>
  Lines 267-275 for one class, with its target column \<open>y\<close> and prediction column \<open>p\<close>.
  \<open>roc_auc_score\<close> is scikit-learn's and a parameter here; an exception other than
  \<open>ValueError\<close> is not caught.
\<close>

definition class_auc :: "(real list \<Rightarrow> real list \<Rightarrow> exn + real) \<Rightarrow> real list \<Rightarrow> real list \<Rightarrow> exn + real" where
  "class_auc roc_auc_score y p =
     (if 0 \<in> set y \<and> 1 \<in> set y then
        (let samples = auc_samples y in
         case roc_auc_score (map (\<lambda>j. y ! j) samples) (map (\<lambda>j. p ! j) samples) of
           Inr a \<Rightarrow> Inr a
         | Inl ValueError \<Rightarrow> Inr (1 / 2)
         | Inl x \<Rightarrow> Inl x)
      else Inr (1 / 2))"

text \<open>Lines 265-275: the loop over the classes still to do.\<close>

fun class_aucs ::
  "(real list \<Rightarrow> real list \<Rightarrow> exn + real) \<Rightarrow> stored \<Rightarrow> nat list \<Rightarrow> exn + real list" where
  "class_aucs roc_auc_score st [] = Inr []"
| "class_aucs roc_auc_score st (i # is) =
     (case class_auc roc_auc_score (column i (targets st)) (column i (predictions st)) of
        Inl x \<Rightarrow> Inl x
      | Inr a \<Rightarrow>
          (case class_aucs roc_auc_score st is of
             Inl x \<Rightarrow> Inl x
           | Inr as \<Rightarrow> Inr (a # as)))"


subsection \<open>An example data set\<close>

text \<open>
  Three views of two wells, and a stand-in for \<open>roc_auc_score\<close> that rejects long
  inputs.
\<close>

definition views :: "sample list" where
  "views =
     [\<lparr>ident = ''P1-A01-1'', prediction = [1 / 5, 1 / 2], target = [- 1, 0]\<rparr>,
      \<lparr>ident = ''P1-B02-1'', prediction = [4 / 5, 1 / 2], target = [1, 1]\<rparr>,
      \<lparr>ident = ''P1-A01-2'', prediction = [2 / 5, 1 / 4], target = [- 1, 0]\<rparr>]"

definition wins :: "real list \<Rightarrow> real list \<Rightarrow> exn + real" where
  "wins y p = (if length y < 3 then Inr 1 else Inl ValueError)"



section \<open>The learning rate of an epoch\<close>

text \<open>
  Modelled from the spec: \<open>adjust_cyclic_annealing_lr\<close> is a method of the session
  class in \<open>pyll.session\<close>, which is not among the source files.  The spec names it
  only as the cyclic learning-rate annealing of snapshot ensembles; the definition is
  that schedule, a cosine annealing from \<open>initial_lr\<close> that restarts every
  \<open>cycle_length\<close> epochs.  \<open>epoch % cycle_length\<close> is a \<open>ZeroDivisionError\<close> for a
  cycle length of zero.
\<close>

definition adjust_cyclic_annealing_lr :: "int \<Rightarrow> real \<Rightarrow> int \<Rightarrow> exn + real" where
  "adjust_cyclic_annealing_lr e lr0 len =
     (if len = 0 then Inl ZeroDivisionError
      else Inr (lr0 / 2 * (cos (pi * real_of_int (e mod len) / real_of_int len) + 1)))"

text \<open>
  Lines 127-142 of \<open>train\<close>: the learning rate it reports.  \<open>lr\<close> is
  \<open>optimizer_params.get("lr")\<close>; \<open>lr_schedule\<close> is the session's
  \<open>adjust_learning_rate\<close> when the configuration has a schedule.
\<close>

definition train_lr :: "real \<Rightarrow> (int \<Rightarrow> real) option \<Rightarrow> ensemble option \<Rightarrow> int \<Rightarrow> exn + real" where
  "train_lr lr lr_schedule props e =
     (case props of
        Some ep \<Rightarrow>
          if ensemble_type ep = Some ''snapshot_ensemble''
          then adjust_cyclic_annealing_lr e (initial_lr ep) (cycle_length ep)
          else Inr lr
      | None \<Rightarrow>
          (case lr_schedule of
             Some adjust_learning_rate \<Rightarrow> Inr (adjust_learning_rate e)
           | None \<Rightarrow> Inr lr))"

section \<open>Properties of the epoch loop\<close>

lemma invoke_cases:
  "invoke w c s = (r, s') \<Longrightarrow>
     (r = None \<and> s' = s\<lparr>trace := trace s @ [c]\<rparr>) \<or> (r \<noteq> None \<and> s' = s)"
  by (auto simp: invoke_def split: option.splits)

lemma trained_append: "trained (xs @ ys) = trained xs @ trained ys"
  by (induction xs rule: trained.induct) auto

lemma validate_and_save_best:
  "validate_and_save w cfg e s = (r, s') \<Longrightarrow> best_performance s \<le> best_performance s'"
  by (auto simp: validate_and_save_def Let_def invoke_def split: if_splits option.splits prod.splits)

lemma train_call_best:
  "train_call w cfg e s = (r, s') \<Longrightarrow> best_performance s' = best_performance s"
  by (auto simp: train_call_def invoke_def split: if_splits option.splits)

lemma ensemble_step_best:
  "ensemble_step w cfg e s = (r, s') \<Longrightarrow> best_performance s' = best_performance s"
  by (auto simp: ensemble_step_def Let_def invoke_def split: if_splits option.splits prod.splits)

lemma epoch_body_best:
  "epoch_body w cfg e s = (r, s') \<Longrightarrow> best_performance s \<le> best_performance s'"
  unfolding epoch_body_def
  by (auto split: prod.splits option.splits
      dest!: train_call_best validate_and_save_best ensemble_step_best)

lemma epoch_loop_best:
  "epoch_loop w cfg es s = (r, s') \<Longrightarrow> best_performance s \<le> best_performance s'"
proof (induction es arbitrary: s)
  case Nil
  then show ?case by simp
next
  case (Cons e es)
  obtain r1 s1 where b: "epoch_body w cfg e (s\<lparr>epoch := Some e\<rparr>) = (r1, s1)"
    by (cases "epoch_body w cfg e (s\<lparr>epoch := Some e\<rparr>)")
  from epoch_body_best[OF b] have le1: "best_performance s \<le> best_performance s1" by simp
  show ?case
  proof (cases r1)
    case None
    with b Cons.prems have "epoch_loop w cfg es s1 = (r, s')" by simp
    from Cons.IH[OF this] le1 show ?thesis by simp
  next
    case (Some x)
    with b Cons.prems have "s' = s1" by simp
    with le1 show ?thesis by simp
  qed
qed


lemma train_call_cases:
  "train_call w cfg e s = (r, s') \<Longrightarrow>
     (r = None \<and> s' = s\<lparr>trace := trace s @ [Train e]\<rparr>) \<or> (r \<noteq> None \<and> s' = s)"
  by (auto simp: train_call_def dest: invoke_cases split: if_splits)

lemma validate_and_save_trained:
  "validate_and_save w cfg e s = (r, s') \<Longrightarrow> trained (trace s') = trained (trace s)"
  by (auto simp: validate_and_save_def Let_def invoke_def trained_append
      split: if_splits option.splits prod.splits)

lemma ensemble_step_trained:
  "ensemble_step w cfg e s = (r, s') \<Longrightarrow> trained (trace s') = trained (trace s)"
  by (auto simp: ensemble_step_def Let_def invoke_def trained_append
      split: if_splits option.splits prod.splits)

lemma epoch_body_trained:
  "epoch_body w cfg e s = (r, s') \<Longrightarrow>
     trained (trace s') = trained (trace s) @ [e] \<or>
     (r \<noteq> None \<and> trained (trace s') = trained (trace s))"
  unfolding epoch_body_def
  by (auto simp: trained_append split: prod.splits option.splits
      dest!: train_call_cases validate_and_save_trained ensemble_step_trained)

lemma epoch_loop_trained:
  "epoch_loop w cfg es s = (r, s') \<Longrightarrow>
     (\<exists>k. trained (trace s') = trained (trace s) @ take k es) \<and>
     (r = None \<longrightarrow> trained (trace s') = trained (trace s) @ es)"
proof (induction es arbitrary: s)
  case Nil
  then show ?case by simp
next
  case (Cons e es)
  obtain r1 s1 where b: "epoch_body w cfg e (s\<lparr>epoch := Some e\<rparr>) = (r1, s1)"
    by (cases "epoch_body w cfg e (s\<lparr>epoch := Some e\<rparr>)")
  from epoch_body_trained[OF b]
  have t1: "trained (trace s1) = trained (trace s) @ [e] \<or>
            (r1 \<noteq> None \<and> trained (trace s1) = trained (trace s))"
    by simp
  show ?case
  proof (cases r1)
    case None
    with b Cons.prems have l: "epoch_loop w cfg es s1 = (r, s')" by simp
    from None t1 have t2: "trained (trace s1) = trained (trace s) @ [e]" by simp
    from Cons.IH[OF l] obtain k where
      k: "trained (trace s') = trained (trace s1) @ take k es"
      and full: "r = None \<longrightarrow> trained (trace s') = trained (trace s1) @ es"
      by blast
    from k t2 have "trained (trace s') = trained (trace s) @ take (Suc k) (e # es)" by simp
    with full t2 show ?thesis by (metis append.assoc append_Cons append_Nil)
  next
    case (Some x)
    with b Cons.prems have eq: "s' = s1" "r = Some x" by simp_all
    from t1 have "trained (trace s1) = trained (trace s) @ take 1 (e # es) \<or>
                  trained (trace s1) = trained (trace s) @ take 0 (e # es)"
      by auto
    with eq show ?thesis by blast
  qed
qed

lemma invoke_frame:
  "invoke w c s = (r, s') \<Longrightarrow> total_epochs s' = total_epochs s \<and> epoch s' = epoch s"
  by (auto simp: invoke_def split: option.splits)

lemma epoch_body_frame:
  "epoch_body w cfg e s = (r, s') \<Longrightarrow> total_epochs s' = total_epochs s \<and> epoch s' = epoch s"
  by (auto simp: epoch_body_def train_call_def validate_and_save_def ensemble_step_def Let_def
      invoke_def split: prod.splits option.splits if_splits)

lemma epoch_loop_total:
  "epoch_loop w cfg es s = (r, s') \<Longrightarrow> total_epochs s' = total_epochs s"
proof (induction es arbitrary: s)
  case Nil
  then show ?case by simp
next
  case (Cons e es)
  obtain r1 s1 where b: "epoch_body w cfg e (s\<lparr>epoch := Some e\<rparr>) = (r1, s1)"
    by (cases "epoch_body w cfg e (s\<lparr>epoch := Some e\<rparr>)")
  from epoch_body_frame[OF b] have f: "total_epochs s1 = total_epochs s" by simp
  show ?case
  proof (cases r1)
    case None
    with b Cons.prems have "epoch_loop w cfg es s1 = (r, s')" by simp
    from Cons.IH[OF this] f show ?thesis by simp
  next
    case (Some x)
    with b Cons.prems f show ?thesis by simp
  qed
qed

lemma try_body_total:
  assumes "try_body w cfg s = (r, s')"
  shows "(ensemble_properties cfg = None \<longrightarrow> total_epochs s' = Some (training_epochs cfg)) \<and>
         (\<forall>ep. ensemble_properties cfg = Some ep \<and> recognised ep \<longrightarrow>
            total_epochs s' = Some (ensemble_size ep * cycle_length ep))"
  using assms
  by (auto simp: try_body_def setup_epochs_def Let_def dest!: epoch_loop_total
      split: option.splits if_splits prod.splits)

lemma try_body_trained:
  assumes "try_body w cfg s = (r, s')"
    and "fst (setup_epochs cfg s) = None \<longrightarrow> total_epochs (snd (setup_epochs cfg s)) = Some t"
  shows "(\<exists>k. trained (trace s') = trained (trace s) @ take k [start_epoch cfg..t - 1]) \<and>
         (r = None \<longrightarrow> trained (trace s') = trained (trace s) @ [start_epoch cfg..t - 1])"
proof (cases "setup_epochs cfg s")
  case (Pair r0 s0)
  have tr0: "trace s0 = trace s"
    using Pair by (auto simp: setup_epochs_def Let_def split: option.splits if_splits)
  show ?thesis
  proof (cases r0)
    case None
    with Pair assms(2) have tot: "total_epochs s0 = Some t" by simp
    with None Pair assms(1) have "epoch_loop w cfg [start_epoch cfg..t - 1] s0 = (r, s')"
      by (simp add: try_body_def)
    from epoch_loop_trained[OF this] tr0 show ?thesis by simp
  next
    case (Some x)
    with Pair assms(1) have "s' = s0" "r = Some x" by (simp_all add: try_body_def)
    with tr0 have "trained (trace s') = trained (trace s) @ take 0 [start_epoch cfg..t - 1]"
      by simp
    with \<open>r = Some x\<close> show ?thesis by blast
  qed
qed

text \<open>
  Claim C3.  The epochs trained by the \<open>try\<close> block are an initial segment of
  \<open>start_epoch, ..., total_epochs - 1\<close>, and all of them when no exception is raised,
  where \<open>total_epochs\<close> is \<open>config.training.epochs\<close> without ensemble properties
  and \<open>ensemble_size * cycle_length\<close> for a deep or snapshot ensemble.
\<close>

theorem epoch_range:
  "try_body w cfg s = (r, s') \<Longrightarrow>
     (ensemble_properties cfg = None \<longrightarrow>
        total_epochs s' = Some (training_epochs cfg) \<and>
        (\<exists>k. trained (trace s') =
              trained (trace s) @ take k [start_epoch cfg..training_epochs cfg - 1]) \<and>
        (r = None \<longrightarrow>
           trained (trace s') = trained (trace s) @ [start_epoch cfg..training_epochs cfg - 1])) \<and>
     (\<forall>ep. ensemble_properties cfg = Some ep \<and> recognised ep \<longrightarrow>
        total_epochs s' = Some (ensemble_size ep * cycle_length ep) \<and>
        (\<exists>k. trained (trace s') =
              trained (trace s) @ take k [start_epoch cfg..ensemble_size ep * cycle_length ep - 1]) \<and>
        (r = None \<longrightarrow>
           trained (trace s') =
           trained (trace s) @ [start_epoch cfg..ensemble_size ep * cycle_length ep - 1]))"
proof (intro impI conjI allI)
  assume tb: "try_body w cfg s = (r, s')" and none: "ensemble_properties cfg = None"
  from try_body_total[OF tb] none
  show "total_epochs s' = Some (training_epochs cfg)" by simp
  have "fst (setup_epochs cfg s) = None \<longrightarrow>
        total_epochs (snd (setup_epochs cfg s)) = Some (training_epochs cfg)"
    using none by (simp add: setup_epochs_def)
  from try_body_trained[OF tb this]
  show "\<exists>k. trained (trace s') =
          trained (trace s) @ take k [start_epoch cfg..training_epochs cfg - 1]"
    and "r = None \<Longrightarrow>
          trained (trace s') = trained (trace s) @ [start_epoch cfg..training_epochs cfg - 1]"
    by simp_all
next
  fix ep
  assume tb: "try_body w cfg s = (r, s')"
    and ens: "ensemble_properties cfg = Some ep \<and> recognised ep"
  from try_body_total[OF tb] ens
  show "total_epochs s' = Some (ensemble_size ep * cycle_length ep)" by simp
  have "fst (setup_epochs cfg s) = None \<longrightarrow>
        total_epochs (snd (setup_epochs cfg s)) = Some (ensemble_size ep * cycle_length ep)"
    using ens by (simp add: setup_epochs_def Let_def)
  from try_body_trained[OF tb this]
  show "\<exists>k. trained (trace s') =
          trained (trace s) @ take k [start_epoch cfg..ensemble_size ep * cycle_length ep - 1]"
    and "r = None \<Longrightarrow>
          trained (trace s') =
          trained (trace s) @ [start_epoch cfg..ensemble_size ep * cycle_length ep - 1]"
    by simp_all
qed

theorem epoch_range_witness:
  "fst (try_body quiet (plain_run 2) (initial_locals (plain_run 2))) = None \<and>
   ensemble_properties (plain_run 2) = None \<and>
   trained (trace (snd (try_body quiet (plain_run 2) (initial_locals (plain_run 2))))) = [0, 1] \<and>
   fst (try_body quiet (ensemble_run True ''snapshot_ensemble'' 3 1)
          (initial_locals (ensemble_run True ''snapshot_ensemble'' 3 1))) = None \<and>
   recognised \<lparr>ensemble_type = Some ''snapshot_ensemble'', ensemble_size = 3, cycle_length = 1, initial_lr = 1 / 10\<rparr> \<and>
   trained (trace (snd (try_body quiet (ensemble_run True ''snapshot_ensemble'' 3 1)
          (initial_locals (ensemble_run True ''snapshot_ensemble'' 3 1))))) = [0, 1, 2]"
proof -
  let ?c = "plain_run 2"
  let ?X = "try_body quiet ?c (initial_locals ?c)"
  let ?d = "ensemble_run True ''snapshot_ensemble'' 3 1"
  let ?ep = "\<lparr>ensemble_type = Some ''snapshot_ensemble'', ensemble_size = 3, cycle_length = 1, initial_lr = 1 / 10\<rparr>"
  let ?Y = "try_body quiet ?d (initial_locals ?d)"
  have x: "fst ?X = None" by code_simp
  have c: "ensemble_properties ?c = None" by (simp add: plain_run_def)
  have "trained (trace (snd ?X)) =
        trained (trace (initial_locals ?c)) @ [start_epoch ?c..training_epochs ?c - 1]"
    using epoch_range[of quiet ?c "initial_locals ?c" "fst ?X" "snd ?X", OF prod.collapse[symmetric]] x c
    by blast
  then have tx: "trained (trace (snd ?X)) = [0, 1]"
    by (simp add: plain_run_def initial_locals_def upto_rec1)
  have y: "fst ?Y = None" by code_simp
  have d: "ensemble_properties ?d = Some ?ep" by (simp add: ensemble_run_def)
  have rec: "recognised ?ep" by (simp add: recognised_def)
  have "trained (trace (snd ?Y)) =
        trained (trace (initial_locals ?d)) @ [start_epoch ?d..ensemble_size ?ep * cycle_length ?ep - 1]"
    using epoch_range[of quiet ?d "initial_locals ?d" "fst ?Y" "snd ?Y", OF prod.collapse[symmetric]] y d rec
    by blast
  then have ty: "trained (trace (snd ?Y)) = [0, 1, 2]"
    by (simp add: ensemble_run_def initial_locals_def upto_rec1)
  from x c tx y rec ty show ?thesis by blast
qed

subsection \<open>The best performance\<close>

lemma close_summaries_frame:
  "close_summaries w ns s = (r, s') \<Longrightarrow>
     best_performance s' = best_performance s \<and> trained (trace s') = trained (trace s) \<and>
     reinitialisations (trace s') = reinitialisations (trace s)"
proof (induction ns arbitrary: s)
  case Nil
  then show ?case by simp
next
  case (Cons n ns)
  show ?case
  proof (cases "raises w (trace s) (ExportScalars n)")
    case (Some x)
    with Cons.prems show ?thesis by (simp add: invoke_def)
  next
    case None
    let ?s1 = "s\<lparr>trace := trace s @ [ExportScalars n]\<rparr>"
    show ?thesis
    proof (cases "raises w (trace ?s1) (CloseSummary n)")
      case (Some x)
      with None Cons.prems show ?thesis
        by (auto simp: invoke_def trained_append reinitialisations_def)
    next
      case n2: None
      let ?s2 = "?s1\<lparr>trace := trace ?s1 @ [CloseSummary n]\<rparr>"
      from None n2 Cons.prems have "close_summaries w ns ?s2 = (r, s')"
        by (simp add: invoke_def)
      from Cons.IH[OF this] show ?thesis
        by (simp add: trained_append reinitialisations_def)
    qed
  qed
qed

lemma finally_block_frame:
  "finally_block w cfg s = (r, s') \<Longrightarrow>
     best_performance s' = best_performance s \<and> trained (trace s') = trained (trace s) \<and>
     reinitialisations (trace s') = reinitialisations (trace s)"
  by (auto simp: finally_block_def invoke_def abort_checkpoint_def trained_append
      reinitialisations_def
      split: option.splits if_splits prod.splits dest!: close_summaries_frame)


lemma try_body_best:
  "try_body w cfg s = (r, s') \<Longrightarrow> best_performance s \<le> best_performance s'"
  by (auto simp: try_body_def setup_epochs_def Let_def dest!: epoch_loop_best
      split: option.splits if_splits prod.splits)

lemma training_loop_best:
  "training_loop w cfg s = (r, s') \<Longrightarrow> best_performance s \<le> best_performance s'"
  by (auto simp: training_loop_def split: prod.splits option.splits
      dest!: try_body_best finally_block_frame)

lemma before_try_frame:
  "before_try w cfg = (r, s) \<Longrightarrow>
     best_performance s = session_best_performance cfg \<and> trained (trace s) = [] \<and>
     reinitialisations (trace s) = 0 \<and> epoch s = None \<and> total_epochs s = None"
  by (auto simp: before_try_def initial_locals_def invoke_def Let_def reinitialisations_def
      split: if_splits option.splits)

lemma main_best:
  "main w cfg = (r, s') \<Longrightarrow> session_best_performance cfg \<le> best_performance s'"
  by (auto simp: main_def split: prod.splits option.splits
      dest!: before_try_frame training_loop_best)

lemma regular_checkpoints_append:
  "regular_checkpoints (xs @ ys) = regular_checkpoints xs @ regular_checkpoints ys"
  by (induction xs rule: regular_checkpoints.induct) auto

lemma flag_best_append:
  "flag_best b (ps @ qs) = flag_best b ps @ flag_best (running_best b ps) qs"
  by (induction ps arbitrary: b) auto

lemma running_best_append:
  "running_best b (ps @ qs) = running_best (running_best b ps) qs"
  by (induction ps arbitrary: b) auto

lemma map_fst_flag_best: "map fst (flag_best b ps) = ps"
  by (induction ps arbitrary: b) auto

lemma running_best_ge: "b \<le> running_best b ps"
proof (induction ps arbitrary: b)
  case Nil
  then show ?case by simp
next
  case (Cons p ps)
  have "b \<le> max p b" by simp
  also have "\<dots> \<le> running_best (max p b) ps" by (rule Cons.IH)
  finally show ?case by simp
qed

lemma invoke_checkpoints:
  "invoke w c s = (r, s') \<Longrightarrow>
     best_performance s' = best_performance s \<and>
     (r = None \<longrightarrow> regular_checkpoints (trace s') =
        regular_checkpoints (trace s) @ regular_checkpoints [c]) \<and>
     (r \<noteq> None \<longrightarrow> regular_checkpoints (trace s') = regular_checkpoints (trace s))"
  by (auto simp: invoke_def regular_checkpoints_append split: option.splits)

lemma train_call_checkpoints:
  "train_call w cfg e s = (r, s') \<Longrightarrow>
     regular_checkpoints (trace s') = regular_checkpoints (trace s)"
  by (auto simp: regular_checkpoints_append dest!: train_call_cases)

lemma ensemble_step_checkpoints:
  "ensemble_step w cfg e s = (r, s') \<Longrightarrow>
     regular_checkpoints (trace s') = regular_checkpoints (trace s)"
  by (auto simp: ensemble_step_def Let_def invoke_def regular_checkpoints_append
      split: if_splits option.splits prod.splits)

lemma validate_and_save_checkpoints:
  assumes "validate_and_save w cfg e s = (r, s')"
  shows "\<exists>ps. regular_checkpoints (trace s') =
           regular_checkpoints (trace s) @ flag_best (best_performance s) ps \<and>
         running_best (best_performance s) ps \<le> best_performance s' \<and>
         (r = None \<longrightarrow> best_performance s' = running_best (best_performance s) ps)"
proof (cases "has_val cfg \<and> raises w (trace s) (Validate ((e + 1) * n_train cfg)) = None")
  case False
  with assms have "s' = s"
    by (auto simp: validate_and_save_def invoke_def split: option.splits if_splits)
  then have "regular_checkpoints (trace s') =
           regular_checkpoints (trace s) @ flag_best (best_performance s) [] \<and>
         running_best (best_performance s) [] \<le> best_performance s' \<and>
         (r = None \<longrightarrow> best_performance s' = running_best (best_performance s) [])"
    by simp
  then show ?thesis by blast
next
  case True
  let ?p = "validate_result w (trace s)"
  let ?v = "Validate ((e + 1) * n_train cfg)"
  let ?c = "SaveCheckpoint None ?p (?p > best_performance s)"
  show ?thesis
  proof (cases "raises w (trace s @ [?v]) ?c")
    case None
    with True assms have "r = None" "best_performance s' = max ?p (best_performance s)"
      "trace s' = trace s @ [?v, ?c]"
      by (auto simp: validate_and_save_def invoke_def Let_def)
    then have "regular_checkpoints (trace s') =
           regular_checkpoints (trace s) @ flag_best (best_performance s) [?p] \<and>
         running_best (best_performance s) [?p] \<le> best_performance s' \<and>
         (r = None \<longrightarrow> best_performance s' = running_best (best_performance s) [?p])"
      by (simp add: regular_checkpoints_append)
    then show ?thesis by blast
  next
    case (Some x)
    with True assms have "best_performance s' = max ?p (best_performance s)"
      "trace s' = trace s @ [?v]" "r = Some x"
      by (auto simp: validate_and_save_def invoke_def Let_def)
    then have "regular_checkpoints (trace s') =
           regular_checkpoints (trace s) @ flag_best (best_performance s) [] \<and>
         running_best (best_performance s) [] \<le> best_performance s' \<and>
         (r = None \<longrightarrow> best_performance s' = running_best (best_performance s) [])"
      by (simp add: regular_checkpoints_append)
    then show ?thesis by blast
  qed
qed

lemma epoch_body_checkpoints:
  assumes "epoch_body w cfg e s = (r, s')"
  shows "\<exists>ps. regular_checkpoints (trace s') =
           regular_checkpoints (trace s) @ flag_best (best_performance s) ps \<and>
         running_best (best_performance s) ps \<le> best_performance s' \<and>
         (r = None \<longrightarrow> best_performance s' = running_best (best_performance s) ps)"
proof -
  obtain r1 s1 where t: "train_call w cfg e s = (r1, s1)" by (cases "train_call w cfg e s")
  from train_call_checkpoints[OF t] train_call_best[OF t]
  have f1: "regular_checkpoints (trace s1) = regular_checkpoints (trace s)"
    "best_performance s1 = best_performance s" by simp_all
  show ?thesis
  proof (cases r1)
    case (Some x)
    with t assms have "s' = s1" "r = Some x" by (simp_all add: epoch_body_def)
    with f1 have "regular_checkpoints (trace s') =
           regular_checkpoints (trace s) @ flag_best (best_performance s) [] \<and>
         running_best (best_performance s) [] \<le> best_performance s' \<and>
         (r = None \<longrightarrow> best_performance s' = running_best (best_performance s) [])"
      by simp
    then show ?thesis by blast
  next
    case None
    obtain r2 s2 where v: "validate_and_save w cfg e s1 = (r2, s2)"
      by (cases "validate_and_save w cfg e s1")
    from validate_and_save_checkpoints[OF v] f1 obtain ps where
      ps: "regular_checkpoints (trace s2) =
             regular_checkpoints (trace s) @ flag_best (best_performance s) ps"
        "running_best (best_performance s) ps \<le> best_performance s2"
        "r2 = None \<longrightarrow> best_performance s2 = running_best (best_performance s) ps"
      by auto
    show ?thesis
    proof (cases r2)
      case (Some x)
      with None t v assms have "s' = s2" "r = Some x" by (simp_all add: epoch_body_def)
      with ps show ?thesis by blast
    next
      case n2: None
      with None t v assms have en: "ensemble_step w cfg e s2 = (r, s')"
        by (simp add: epoch_body_def)
      from ensemble_step_checkpoints[OF en] ensemble_step_best[OF en] ps n2
      have "regular_checkpoints (trace s') =
             regular_checkpoints (trace s) @ flag_best (best_performance s) ps \<and>
         running_best (best_performance s) ps \<le> best_performance s' \<and>
         (r = None \<longrightarrow> best_performance s' = running_best (best_performance s) ps)"
        by simp
      then show ?thesis by blast
    qed
  qed
qed

lemma epoch_loop_checkpoints:
  "epoch_loop w cfg es s = (r, s') \<Longrightarrow>
     \<exists>ps. regular_checkpoints (trace s') =
           regular_checkpoints (trace s) @ flag_best (best_performance s) ps \<and>
         running_best (best_performance s) ps \<le> best_performance s' \<and>
         (r = None \<longrightarrow> best_performance s' = running_best (best_performance s) ps)"
proof (induction es arbitrary: s)
  case Nil
  then have "regular_checkpoints (trace s') =
           regular_checkpoints (trace s) @ flag_best (best_performance s) [] \<and>
         running_best (best_performance s) [] \<le> best_performance s' \<and>
         (r = None \<longrightarrow> best_performance s' = running_best (best_performance s) [])"
    by simp
  then show ?case by blast
next
  case (Cons e es)
  let ?s0 = "s\<lparr>epoch := Some e\<rparr>"
  obtain r1 s1 where b: "epoch_body w cfg e ?s0 = (r1, s1)"
    by (cases "epoch_body w cfg e ?s0")
  from epoch_body_checkpoints[OF b] obtain ps where
    ps: "regular_checkpoints (trace s1) =
           regular_checkpoints (trace s) @ flag_best (best_performance s) ps"
      "running_best (best_performance s) ps \<le> best_performance s1"
      "r1 = None \<longrightarrow> best_performance s1 = running_best (best_performance s) ps"
    by auto
  show ?case
  proof (cases r1)
    case (Some x)
    with b Cons.prems have "s' = s1" "r = Some x" by simp_all
    with ps show ?thesis by blast
  next
    case None
    with b Cons.prems have l: "epoch_loop w cfg es s1 = (r, s')" by simp
    from Cons.IH[OF l] obtain qs where
      qs: "regular_checkpoints (trace s') =
             regular_checkpoints (trace s1) @ flag_best (best_performance s1) qs"
        "running_best (best_performance s1) qs \<le> best_performance s'"
        "r = None \<longrightarrow> best_performance s' = running_best (best_performance s1) qs"
      by auto
    from None ps(3) have b1: "best_performance s1 = running_best (best_performance s) ps" by simp
    have "regular_checkpoints (trace s') =
           regular_checkpoints (trace s) @ flag_best (best_performance s) (ps @ qs) \<and>
         running_best (best_performance s) (ps @ qs) \<le> best_performance s' \<and>
         (r = None \<longrightarrow> best_performance s' = running_best (best_performance s) (ps @ qs))"
      using ps(1) qs unfolding b1 by (simp add: flag_best_append running_best_append)
    then show ?thesis by blast
  qed
qed


lemma close_summaries_checkpoints:
  "close_summaries w ns s = (r, s') \<Longrightarrow>
     regular_checkpoints (trace s') = regular_checkpoints (trace s)"
proof (induction ns arbitrary: s)
  case Nil
  then show ?case by simp
next
  case (Cons n ns)
  obtain r1 s1 where i1: "invoke w (ExportScalars n) s = (r1, s1)"
    by (cases "invoke w (ExportScalars n) s")
  from invoke_checkpoints[OF i1]
  have c1: "regular_checkpoints (trace s1) = regular_checkpoints (trace s)"
    by (cases r1) simp_all
  show ?case
  proof (cases r1)
    case (Some x)
    with i1 Cons.prems c1 show ?thesis by simp
  next
    case None
    obtain r2 s2 where i2: "invoke w (CloseSummary n) s1 = (r2, s2)"
      by (cases "invoke w (CloseSummary n) s1")
    from invoke_checkpoints[OF i2]
    have c2: "regular_checkpoints (trace s2) = regular_checkpoints (trace s1)"
      by (cases r2) simp_all
    show ?thesis
    proof (cases r2)
      case (Some x)
      with None i1 i2 Cons.prems c1 c2 show ?thesis by simp
    next
      case n2: None
      with None i1 i2 Cons.prems have "close_summaries w ns s2 = (r, s')" by simp
      from Cons.IH[OF this] c1 c2 show ?thesis by simp
    qed
  qed
qed

lemma finally_block_checkpoints:
  "finally_block w cfg s = (r, s') \<Longrightarrow>
     regular_checkpoints (trace s') = regular_checkpoints (trace s)"
  by (auto simp: finally_block_def invoke_def abort_checkpoint_def regular_checkpoints_append
      split: option.splits if_splits prod.splits dest!: close_summaries_checkpoints)

lemma try_body_checkpoints:
  assumes "try_body w cfg s = (r, s')"
  shows "\<exists>ps. regular_checkpoints (trace s') =
           regular_checkpoints (trace s) @ flag_best (best_performance s) ps \<and>
         running_best (best_performance s) ps \<le> best_performance s' \<and>
         (r = None \<longrightarrow> best_performance s' = running_best (best_performance s) ps)"
proof (cases "setup_epochs cfg s")
  case (Pair r0 s0)
  then have f0: "trace s0 = trace s" "best_performance s0 = best_performance s"
    by (auto simp: setup_epochs_def Let_def split: option.splits if_splits)
  have stay: "\<exists>ps. regular_checkpoints (trace s0) =
           regular_checkpoints (trace s) @ flag_best (best_performance s) ps \<and>
         running_best (best_performance s) ps \<le> best_performance s0 \<and>
         (Some x = None \<longrightarrow> best_performance s0 = running_best (best_performance s) ps)" for x :: exn
    using f0 by (intro exI[of _ "[]"]) simp
  show ?thesis
  proof (cases r0)
    case (Some x)
    with Pair assms have "s' = s0" "r = Some x" by (simp_all add: try_body_def)
    with stay[of x] show ?thesis by simp
  next
    case None
    show ?thesis
    proof (cases "total_epochs s0")
      case n: None
      with None Pair assms have "s' = s0" "r = Some (NameError ''total_epochs'')"
        by (simp_all add: try_body_def)
      with stay[of "NameError ''total_epochs''"] show ?thesis by simp
    next
      case (Some t)
      with None Pair assms have "epoch_loop w cfg [start_epoch cfg..t - 1] s0 = (r, s')"
        by (simp add: try_body_def)
      from epoch_loop_checkpoints[OF this] f0 show ?thesis by simp
    qed
  qed
qed

lemma main_checkpoints:
  assumes "main w cfg = (r, s')"
  shows "\<exists>ps. regular_checkpoints (trace s') = flag_best (session_best_performance cfg) ps \<and>
         (r = None \<longrightarrow> best_performance s' = running_best (session_best_performance cfg) ps)"
proof (cases "before_try w cfg")
  case (Pair r0 s0)
  have rc0: "regular_checkpoints (trace s0) = []"
    using Pair
    by (auto simp: before_try_def initial_locals_def invoke_def Let_def
        split: if_splits option.splits)
  from before_try_frame[OF Pair] have b0: "best_performance s0 = session_best_performance cfg"
    by simp
  show ?thesis
  proof (cases r0)
    case (Some x)
    with Pair assms have "s' = s0" "r = Some x" by (simp_all add: main_def)
    with rc0 have "regular_checkpoints (trace s') = flag_best (session_best_performance cfg) [] \<and>
         (r = None \<longrightarrow> best_performance s' = running_best (session_best_performance cfg) [])"
      by simp
    then show ?thesis by blast
  next
    case None
    with Pair assms have tl: "training_loop w cfg s0 = (r, s')" by (simp add: main_def)
    obtain r1 s1 where tb: "try_body w cfg s0 = (r1, s1)" by (cases "try_body w cfg s0")
    obtain r2 s2 where fb: "finally_block w cfg s1 = (r2, s2)"
      by (cases "finally_block w cfg s1")
    from tl tb fb have s': "s' = s2" and r: "r = None \<longrightarrow> r1 = None"
      by (auto simp: training_loop_def split: option.splits)
    from try_body_checkpoints[OF tb] rc0 b0 obtain ps where
      ps: "regular_checkpoints (trace s1) = flag_best (session_best_performance cfg) ps"
        "r1 = None \<longrightarrow> best_performance s1 = running_best (session_best_performance cfg) ps"
      by auto
    from finally_block_checkpoints[OF fb] finally_block_frame[OF fb]
    have "regular_checkpoints (trace s2) = regular_checkpoints (trace s1)"
      "best_performance s2 = best_performance s1"
      by simp_all
    with ps s' r have "regular_checkpoints (trace s') = flag_best (session_best_performance cfg) ps \<and>
         (r = None \<longrightarrow> best_performance s' = running_best (session_best_performance cfg) ps)"
      by simp
    then show ?thesis by blast
  qed
qed

text \<open>
  Claim C10.  The best performance never decreases over the epoch loop, whether it ends
  normally or with an exception, nor over \<open>main\<close>.  The regular checkpoints the loop
  saves are its validation results in order, each flagged \<open>is_best\<close> exactly when it
  is strictly greater than the best performance before it (the best at the start of the
  loop and every result validated since), and when the loop ends normally the best
  performance is the running maximum of these results.  In one epoch, validation sets
  the best performance to the maximum of the new performance and the previous best and
  saves the checkpoint with \<open>is_best\<close> exactly when the new performance is strictly
  greater than the previous best.
\<close>

theorem best_performance_non_decreasing:
  "(\<forall>r s'. epoch_loop w cfg es s = (r, s') \<longrightarrow>
      best_performance s \<le> best_performance s' \<and>
      (let ps = map fst (drop (length (regular_checkpoints (trace s)))
                  (regular_checkpoints (trace s')))
       in regular_checkpoints (trace s') =
            regular_checkpoints (trace s) @ flag_best (best_performance s) ps \<and>
          running_best (best_performance s) ps \<le> best_performance s' \<and>
          (r = None \<longrightarrow> best_performance s' = running_best (best_performance s) ps))) \<and>
   (has_val cfg \<and> raises w (trace s) (Validate ((e + 1) * n_train cfg)) = None \<longrightarrow>
      (let p = validate_result w (trace s);
           saved = SaveCheckpoint None p (p > best_performance s);
           r = fst (validate_and_save w cfg e s);
           s' = snd (validate_and_save w cfg e s)
       in best_performance s' = max p (best_performance s) \<and>
          performance s' = Some p \<and>
          r = raises w (trace s @ [Validate ((e + 1) * n_train cfg)]) saved \<and>
          (r = None \<longrightarrow> trace s' = trace s @ [Validate ((e + 1) * n_train cfg), saved]))) \<and>
   session_best_performance cfg \<le> best_performance (snd (main w cfg)) \<and>
   (let ps = map fst (regular_checkpoints (trace (snd (main w cfg))))
    in regular_checkpoints (trace (snd (main w cfg))) =
         flag_best (session_best_performance cfg) ps \<and>
       (fst (main w cfg) = None \<longrightarrow>
          best_performance (snd (main w cfg)) = running_best (session_best_performance cfg) ps))"
proof -
  have loop: "best_performance s \<le> best_performance s' \<and>
      (let ps = map fst (drop (length (regular_checkpoints (trace s)))
                  (regular_checkpoints (trace s')))
       in regular_checkpoints (trace s') =
            regular_checkpoints (trace s) @ flag_best (best_performance s) ps \<and>
          running_best (best_performance s) ps \<le> best_performance s' \<and>
          (r = None \<longrightarrow> best_performance s' = running_best (best_performance s) ps))"
    if l: "epoch_loop w cfg es s = (r, s')" for r s'
  proof -
    from epoch_loop_checkpoints[OF l] obtain ps where
      ps: "regular_checkpoints (trace s') =
             regular_checkpoints (trace s) @ flag_best (best_performance s) ps"
        "running_best (best_performance s) ps \<le> best_performance s'"
        "r = None \<longrightarrow> best_performance s' = running_best (best_performance s) ps"
      by auto
    have "map fst (drop (length (regular_checkpoints (trace s)))
            (regular_checkpoints (trace s'))) = ps"
      by (simp add: ps(1) map_fst_flag_best)
    with ps epoch_loop_best[OF l] show ?thesis by (simp add: Let_def)
  qed
  have step: "has_val cfg \<and> raises w (trace s) (Validate ((e + 1) * n_train cfg)) = None \<longrightarrow>
      (let p = validate_result w (trace s);
           saved = SaveCheckpoint None p (p > best_performance s);
           r = fst (validate_and_save w cfg e s);
           s' = snd (validate_and_save w cfg e s)
       in best_performance s' = max p (best_performance s) \<and>
          performance s' = Some p \<and>
          r = raises w (trace s @ [Validate ((e + 1) * n_train cfg)]) saved \<and>
          (r = None \<longrightarrow> trace s' = trace s @ [Validate ((e + 1) * n_train cfg), saved]))"
    by (auto simp: validate_and_save_def invoke_def Let_def split: option.splits)
  have mb: "session_best_performance cfg \<le> best_performance (snd (main w cfg))"
    by (rule main_best[of w cfg "fst (main w cfg)"]) simp
  have mc: "let ps = map fst (regular_checkpoints (trace (snd (main w cfg))))
    in regular_checkpoints (trace (snd (main w cfg))) =
         flag_best (session_best_performance cfg) ps \<and>
       (fst (main w cfg) = None \<longrightarrow>
          best_performance (snd (main w cfg)) = running_best (session_best_performance cfg) ps)"
  proof -
    from main_checkpoints[of w cfg "fst (main w cfg)" "snd (main w cfg)"] obtain ps where
      ps: "regular_checkpoints (trace (snd (main w cfg))) =
             flag_best (session_best_performance cfg) ps"
        "fst (main w cfg) = None \<longrightarrow>
           best_performance (snd (main w cfg)) = running_best (session_best_performance cfg) ps"
      by auto
    have "map fst (regular_checkpoints (trace (snd (main w cfg)))) = ps"
      by (simp add: ps(1) map_fst_flag_best)
    with ps show ?thesis by (simp add: Let_def)
  qed
  from loop step mb mc show ?thesis by blast
qed


theorem best_performance_non_decreasing_witness:
  "fst (main peaked (plain_run 2)) = None \<and>
   regular_checkpoints (trace (snd (main peaked (plain_run 2)))) =
     [(1 / 2, True), (1 / 5, False)] \<and>
   best_performance (snd (main peaked (plain_run 2))) = 1 / 2 \<and>
   has_val (plain_run 2) \<and>
   raises peaked [Validate 0, Train 0, Validate 10, SaveCheckpoint None (1 / 2) True, Train 1]
     (Validate ((1 + 1) * n_train (plain_run 2))) = None \<and>
   trace (snd (validate_and_save peaked (plain_run 2) 1
     \<lparr>trace = [Validate 0, Train 0, Validate 10, SaveCheckpoint None (1 / 2) True, Train 1],
      best_performance = 1 / 2, performance = Some (1 / 2), total_epochs = Some 2,
      member_index = None, epoch = Some 1\<rparr>)) =
     [Validate 0, Train 0, Validate 10, SaveCheckpoint None (1 / 2) True, Train 1,
      Validate 20, SaveCheckpoint None (1 / 5) False]"
proof -
  let ?c = "plain_run 2"
  let ?tr = "[Validate 0, Train 0, Validate 10, SaveCheckpoint None (1 / 2) True, Train 1]"
  let ?s = "\<lparr>trace = ?tr, best_performance = 1 / 2, performance = Some (1 / 2),
      total_epochs = Some 2, member_index = None, epoch = Some (1::int)\<rparr>"
  note T = best_performance_non_decreasing[of peaked ?c "[]" ?s 1]
  have ok: "fst (main peaked ?c) = None" by code_simp
  have cps: "regular_checkpoints (trace (snd (main peaked ?c))) = [(1 / 2, True), (1 / 5, False)]"
    by code_simp
  have sb: "session_best_performance ?c = 0" by (simp add: plain_run_def)
  from T have "let ps = map fst (regular_checkpoints (trace (snd (main peaked ?c))))
    in regular_checkpoints (trace (snd (main peaked ?c))) =
         flag_best (session_best_performance ?c) ps \<and>
       (fst (main peaked ?c) = None \<longrightarrow>
          best_performance (snd (main peaked ?c)) = running_best (session_best_performance ?c) ps)"
    by (rule conjunct2[THEN conjunct2, THEN conjunct2])
  with ok have "best_performance (snd (main peaked ?c)) =
      running_best (session_best_performance ?c)
        (map fst (regular_checkpoints (trace (snd (main peaked ?c)))))"
    by (simp add: Let_def)
  then have best: "best_performance (snd (main peaked ?c)) = 1 / 2"
    unfolding cps sb by simp
  have h1: "has_val ?c" by (simp add: plain_run_def)
  have h2: "raises peaked ?tr (Validate ((1 + 1) * n_train ?c)) = None"
    by (simp add: peaked_def)
  have h: "has_val ?c \<and> raises peaked (trace ?s) (Validate ((1 + 1) * n_train ?c)) = None"
    using h1 h2 by simp
  note S = T[THEN conjunct2, THEN conjunct1, THEN mp, OF h]
  have r0: "raises peaked tr c = None" for tr c by (simp add: peaked_def)
  note S' = S[unfolded Let_def]
  note rr = S'[THEN conjunct2, THEN conjunct2, THEN conjunct1]
  have fin: "fst (validate_and_save peaked ?c 1 ?s) = None"
    using rr by (simp only: r0)
  note S'[THEN conjunct2, THEN conjunct2, THEN conjunct2, THEN mp, OF fin]
  then have tr: "trace (snd (validate_and_save peaked ?c 1 ?s)) =
     ?tr @ [Validate 20, SaveCheckpoint None (1 / 5) False]"
    by (simp add: peaked_def plain_run_def)
  from ok cps best h1 h2 tr show ?thesis by simp
qed

subsection \<open>Re-initialisation\<close>

lemma checkpoints_dvd: "x \<in> set (checkpoints ep) \<Longrightarrow> cycle_length ep dvd x"
  by (auto simp: checkpoints_def)

lemma train_call_reinit:
  "train_call w cfg e s = (r, s') \<Longrightarrow>
     reinitialisations (trace s') = reinitialisations (trace s)"
  by (auto simp: reinitialisations_def dest!: train_call_cases)

lemma validate_and_save_reinit:
  "validate_and_save w cfg e s = (r, s') \<Longrightarrow>
     reinitialisations (trace s') = reinitialisations (trace s)"
  by (auto simp: validate_and_save_def Let_def invoke_def reinitialisations_def
      split: if_splits option.splits prod.splits)

lemma ensemble_step_reinit:
  "ensemble_step w cfg e s = (r, s') \<Longrightarrow>
     reinitialisations (trace s') = reinitialisations (trace s) \<or>
     (\<exists>ep. ensemble_properties cfg = Some ep \<and> ensemble_type ep = Some ''deep_ensemble'' \<and>
           e + 1 \<in> set (checkpoints ep))"
  by (auto simp: ensemble_step_def Let_def invoke_def reinitialisations_def
      split: if_splits option.splits prod.splits)

lemma epoch_body_reinit:
  "epoch_body w cfg e s = (r, s') \<Longrightarrow>
     reinitialisations (trace s') = reinitialisations (trace s) \<or>
     (\<exists>ep. ensemble_properties cfg = Some ep \<and> ensemble_type ep = Some ''deep_ensemble'' \<and>
           e + 1 \<in> set (checkpoints ep))"
  unfolding epoch_body_def
  by (auto split: prod.splits option.splits
      dest!: train_call_reinit validate_and_save_reinit ensemble_step_reinit)

lemma epoch_loop_reinit:
  assumes "\<forall>ep. ensemble_properties cfg = Some ep \<longrightarrow> ensemble_type ep \<noteq> Some ''deep_ensemble''"
  shows "epoch_loop w cfg es s = (r, s') \<Longrightarrow>
     reinitialisations (trace s') = reinitialisations (trace s)"
proof (induction es arbitrary: s)
  case Nil
  then show ?case by simp
next
  case (Cons e es)
  obtain r1 s1 where b: "epoch_body w cfg e (s\<lparr>epoch := Some e\<rparr>) = (r1, s1)"
    by (cases "epoch_body w cfg e (s\<lparr>epoch := Some e\<rparr>)")
  from epoch_body_reinit[OF b] assms
  have f: "reinitialisations (trace s1) = reinitialisations (trace s)" by auto
  show ?case
  proof (cases r1)
    case None
    with b Cons.prems have "epoch_loop w cfg es s1 = (r, s')" by simp
    from Cons.IH[OF this] f show ?thesis by simp
  next
    case (Some x)
    with b Cons.prems f show ?thesis by simp
  qed
qed

lemma main_reinit:
  assumes "\<forall>ep. ensemble_properties cfg = Some ep \<longrightarrow> ensemble_type ep \<noteq> Some ''deep_ensemble''"
    and "main w cfg = (r, s')"
  shows "reinitialisations (trace s') = 0"
proof -
  have tb: "try_body w cfg s = (r1, s1) \<Longrightarrow>
      reinitialisations (trace s1) = reinitialisations (trace s)" for s r1 s1
    by (auto simp: try_body_def setup_epochs_def Let_def
        dest!: epoch_loop_reinit[OF assms(1)] split: option.splits if_splits prod.splits)
  have tl: "training_loop w cfg s = (r1, s1) \<Longrightarrow>
      reinitialisations (trace s1) = reinitialisations (trace s)" for s r1 s1
    by (auto simp: training_loop_def split: prod.splits option.splits
        dest!: tb finally_block_frame)
  from assms(2) show ?thesis
    by (auto simp: main_def split: prod.splits option.splits dest!: before_try_frame tl)
qed

text \<open>
  Claim C7.  An iteration of the epoch loop re-initialises the model only when the
  ensemble type is \<open>deep_ensemble\<close> and \<open>epoch + 1\<close> is one of the checkpoints, hence
  a multiple of the cycle length.  A run whose ensemble type is not \<open>deep_ensemble\<close>
  (a snapshot ensemble, or no ensemble at all) never re-initialises the model.
\<close>

theorem reinitialise_only_deep_boundary:
  "(\<forall>r s'. epoch_body w cfg e s = (r, s') \<and>
       reinitialisations (trace s') \<noteq> reinitialisations (trace s) \<longrightarrow>
       (\<exists>ep. ensemble_properties cfg = Some ep \<and> ensemble_type ep = Some ''deep_ensemble'' \<and>
             e + 1 \<in> set (checkpoints ep) \<and> cycle_length ep dvd e + 1)) \<and>
   ((\<forall>ep. ensemble_properties cfg = Some ep \<longrightarrow> ensemble_type ep \<noteq> Some ''deep_ensemble'') \<longrightarrow>
      reinitialisations (trace (snd (main w cfg))) = 0 \<and>
      ReInitialiseModel \<notin> set (trace (snd (main w cfg))))"
proof (intro conjI allI impI)
  fix r s'
  assume "epoch_body w cfg e s = (r, s') \<and>
       reinitialisations (trace s') \<noteq> reinitialisations (trace s)"
  with epoch_body_reinit[of w cfg e s r s']
  show "\<exists>ep. ensemble_properties cfg = Some ep \<and> ensemble_type ep = Some ''deep_ensemble'' \<and>
             e + 1 \<in> set (checkpoints ep) \<and> cycle_length ep dvd e + 1"
    by (auto dest: checkpoints_dvd)
next
  assume a: "\<forall>ep. ensemble_properties cfg = Some ep \<longrightarrow> ensemble_type ep \<noteq> Some ''deep_ensemble''"
  from main_reinit[OF a, of w "fst (main w cfg)" "snd (main w cfg)"]
  show z: "reinitialisations (trace (snd (main w cfg))) = 0" by simp
  then show "ReInitialiseModel \<notin> set (trace (snd (main w cfg)))"
    by (simp add: reinitialisations_def count_list_0_iff)
qed


theorem reinitialise_only_deep_boundary_witness:
  "reinitialisations (trace (snd (epoch_body quiet (ensemble_run True ''deep_ensemble'' 2 2) 1
       \<lparr>trace = [], best_performance = 0, performance = None, total_epochs = Some 4,
        member_index = Some 0, epoch = Some 1\<rparr>))) \<noteq> reinitialisations [] \<and>
   (\<exists>ep. ensemble_properties (ensemble_run True ''deep_ensemble'' 2 2) = Some ep \<and>
      ensemble_type ep = Some ''deep_ensemble'' \<and> cycle_length ep dvd 1 + 1) \<and>
   ensemble_properties (plain_run 2) = None \<and>
   reinitialisations (trace (snd (main quiet (plain_run 2)))) = 0"
proof -
  let ?d = "ensemble_run True ''deep_ensemble'' 2 2"
  let ?s = "\<lparr>trace = [], best_performance = 0, performance = None, total_epochs = Some 4,
        member_index = Some 0, epoch = Some (1::int)\<rparr>"
  let ?B = "epoch_body quiet ?d 1 ?s"
  note T = reinitialise_only_deep_boundary[of quiet ?d 1 ?s]
  note U = reinitialise_only_deep_boundary[of quiet "plain_run 2"]
  have h: "reinitialisations (trace (snd ?B)) \<noteq> reinitialisations []" by code_simp
  then have h': "?B = (fst ?B, snd ?B) \<and>
       reinitialisations (trace (snd ?B)) \<noteq> reinitialisations (trace ?s)"
    by simp
  from T h' have c: "\<exists>ep. ensemble_properties ?d = Some ep \<and>
      ensemble_type ep = Some ''deep_ensemble'' \<and> cycle_length ep dvd 1 + 1"
    by blast
  have p: "ensemble_properties (plain_run 2) = None" by (simp add: plain_run_def)
  with U have "reinitialisations (trace (snd (main quiet (plain_run 2)))) = 0" by simp
  with h c p show ?thesis by blast
qed

subsection \<open>An unrecognised ensemble type\<close>

text \<open>
  Claim C9.  With truthy ensemble properties whose type is neither \<open>deep_ensemble\<close>
  nor \<open>snapshot_ensemble\<close>, once \<open>main\<close> reaches the \<open>try\<close> block its body raises
  a \<open>NameError\<close> for \<open>total_epochs\<close> with no call made, the \<open>finally\<close> block raises
  a \<open>NameError\<close> for \<open>epoch\<close>, and that is how \<open>main\<close> ends; in no case does
  \<open>main\<close> complete normally.
\<close>

theorem unrecognised_ensemble_type:
  assumes "ensemble_properties cfg = Some ep" and "\<not> recognised ep"
  shows "(\<forall>s1. before_try w cfg = (None, s1) \<longrightarrow>
            try_body w cfg s1 = (Some (NameError ''total_epochs''), s1) \<and>
            finally_block w cfg s1 = (Some (NameError ''epoch''), s1) \<and>
            main w cfg = (Some (NameError ''epoch''), s1)) \<and>
         fst (main w cfg) \<noteq> None"
proof -
  have a: "try_body w cfg s1 = (Some (NameError ''total_epochs''), s1) \<and>
           finally_block w cfg s1 = (Some (NameError ''epoch''), s1) \<and>
           main w cfg = (Some (NameError ''epoch''), s1)"
    if b: "before_try w cfg = (None, s1)" for s1
  proof -
    from before_try_frame[OF b] have u: "epoch s1 = None" "total_epochs s1 = None" by simp_all
    from assms u have t: "try_body w cfg s1 = (Some (NameError ''total_epochs''), s1)"
      by (simp add: try_body_def setup_epochs_def)
    from u have f: "finally_block w cfg s1 = (Some (NameError ''epoch''), s1)"
      by (simp add: finally_block_def)
    from b t f show ?thesis by (simp add: main_def training_loop_def)
  qed
  have "fst (main w cfg) \<noteq> None"
  proof (cases "before_try w cfg")
    case (Pair r0 s1)
    show ?thesis
    proof (cases r0)
      case None
      with Pair a[of s1] show ?thesis by simp
    next
      case (Some x)
      with Pair show ?thesis by (simp add: main_def)
    qed
  qed
  with a show ?thesis by blast
qed

theorem unrecognised_ensemble_type_witness:
  "ensemble_properties (ensemble_run True ''bagging'' 2 2) =
     Some \<lparr>ensemble_type = Some ''bagging'', ensemble_size = 2, cycle_length = 2, initial_lr = 1 / 10\<rparr> \<and>
   \<not> recognised \<lparr>ensemble_type = Some ''bagging'', ensemble_size = 2, cycle_length = 2, initial_lr = 1 / 10\<rparr> \<and>
   fst (before_try quiet (ensemble_run True ''bagging'' 2 2)) = None \<and>
   fst (main quiet (ensemble_run True ''bagging'' 2 2)) = Some (NameError ''epoch'') \<and>
   trace (snd (main quiet (ensemble_run True ''bagging'' 2 2))) = [Validate 0]"
proof -
  let ?c = "ensemble_run True ''bagging'' 2 2"
  let ?ep = "\<lparr>ensemble_type = Some ''bagging'', ensemble_size = 2, cycle_length = 2, initial_lr = 1 / 10\<rparr>"
  have h1: "ensemble_properties ?c = Some ?ep" by (simp add: ensemble_run_def)
  have h2: "\<not> recognised ?ep" by (simp add: recognised_def)
  have b: "before_try quiet ?c = (None, (initial_locals ?c)\<lparr>trace := [Validate 0]\<rparr>)"
    by (simp add: before_try_def ensemble_run_def invoke_def quiet_def initial_locals_def)
  from unrecognised_ensemble_type[OF h1 h2, of quiet] b
  have "main quiet ?c = (Some (NameError ''epoch''), (initial_locals ?c)\<lparr>trace := [Validate 0]\<rparr>)"
    by blast
  with h1 h2 b show ?thesis by simp
qed

subsection \<open>The abort checkpoint\<close>

lemma close_summaries_quiet:
  assumes "\<forall>tr n. raises w tr (ExportScalars n) = None \<and> raises w tr (CloseSummary n) = None"
  shows "close_summaries w ns s = (None, s\<lparr>trace := trace s @ closing_calls ns\<rparr>)"
  using assms
  by (induction ns arbitrary: s) (simp_all add: closing_calls_def invoke_def)

text \<open>
  Claim C1, as amended.  When the body of the \<open>try\<close> raises in the iteration of epoch
  \<open>e\<close> and the calls of the \<open>finally\<close> block do not raise themselves, the same
  exception leaves the \<open>try\<close> statement after every summary writer was exported and
  closed; the abort checkpoint is written before that exactly when
  \<open>e + 1 \<noteq> total_epochs\<close>.
\<close>

theorem abort_checkpoint_and_writers:
  assumes "try_body w cfg s = (Some x, s1)"
    and "epoch s1 = Some e" and "total_epochs s1 = Some t"
    and "\<forall>tr. raises w tr abort_checkpoint = None"
    and "\<forall>tr n. raises w tr (ExportScalars n) = None \<and> raises w tr (CloseSummary n) = None"
  shows "fst (training_loop w cfg s) = Some x \<and>
         trace (snd (training_loop w cfg s)) =
           trace s1 @ (if e + 1 \<noteq> t then [abort_checkpoint] else []) @
           closing_calls (summaries cfg)"
proof -
  let ?s2 = "if e + 1 \<noteq> t then s1\<lparr>trace := trace s1 @ [abort_checkpoint]\<rparr> else s1"
  from assms(2,3,4)
  have "finally_block w cfg s1 = close_summaries w (summaries cfg) ?s2"
    by (simp add: finally_block_def invoke_def)
  also have "\<dots> = (None, ?s2\<lparr>trace := trace ?s2 @ closing_calls (summaries cfg)\<rparr>)"
    by (rule close_summaries_quiet[OF assms(5)])
  finally have "finally_block w cfg s1 =
      (None, ?s2\<lparr>trace := trace ?s2 @ closing_calls (summaries cfg)\<rparr>)" .
  with assms(1) show ?thesis by (simp add: training_loop_def)
qed

text \<open>
  Claim C1 as stated fails: a keyboard interrupt in the last epoch (here the only one)
  leaves \<open>main\<close> without an abort checkpoint.
\<close>

theorem no_abort_checkpoint_in_last_epoch:
  "fst (try_body interrupted (plain_run 1) (snd (before_try interrupted (plain_run 1)))) =
     Some KeyboardInterrupt \<and>
   epoch (snd (try_body interrupted (plain_run 1) (snd (before_try interrupted (plain_run 1))))) =
     Some 0 \<and>
   fst (main interrupted (plain_run 1)) = Some KeyboardInterrupt \<and>
   abort_checkpoint \<notin> set (trace (snd (main interrupted (plain_run 1))))"
  by code_simp

theorem abort_checkpoint_and_writers_witness:
  "fst (main interrupted (plain_run 2)) = Some KeyboardInterrupt \<and>
   trace (snd (main interrupted (plain_run 2))) =
     [Validate 0, abort_checkpoint, ExportScalars ''train'', CloseSummary ''train'',
      ExportScalars ''val'', CloseSummary ''val'']"
proof -
  let ?c = "plain_run 2"
  let ?s = "(initial_locals ?c)\<lparr>trace := [Validate 0]\<rparr>"
  let ?s1 = "?s\<lparr>total_epochs := Some 2, epoch := Some 0\<rparr>"
  have b: "before_try interrupted ?c = (None, ?s)"
    by (simp add: before_try_def plain_run_def invoke_def interrupted_def initial_locals_def)
  have t: "try_body interrupted ?c ?s = (Some KeyboardInterrupt, ?s1)"
    by (simp add: try_body_def setup_epochs_def plain_run_def upto_rec1 epoch_body_def
        train_call_def invoke_def interrupted_def initial_locals_def)
  have a: "\<forall>tr. raises interrupted tr abort_checkpoint = None"
    by (simp add: interrupted_def abort_checkpoint_def)
  have c: "\<forall>tr n. raises interrupted tr (ExportScalars n) = None \<and>
                  raises interrupted tr (CloseSummary n) = None"
    by (simp add: interrupted_def)
  from abort_checkpoint_and_writers[OF t _ _ a c, of 0 2]
  have "fst (training_loop interrupted ?c ?s) = Some KeyboardInterrupt \<and>
        trace (snd (training_loop interrupted ?c ?s)) =
          [Validate 0] @ [abort_checkpoint] @ closing_calls (summaries ?c)"
    by (simp add: initial_locals_def)
  with b show ?thesis
    by (simp add: main_def closing_calls_def plain_run_def split: prod.splits)
qed

subsection \<open>Ensemble member checkpoints\<close>

lemma checkpoints_iff:
  "x \<in> set (checkpoints ep) \<longleftrightarrow>
     (\<exists>cp. 1 \<le> cp \<and> cp \<le> ensemble_size ep \<and> x = cycle_length ep * cp)"
  by (auto simp: checkpoints_def)

lemma int_of_quotient_floor:
  "0 \<le> a \<Longrightarrow> 0 < b \<Longrightarrow> int_of_quotient a b = a div b"
  by (cases "a = 0") (simp_all add: int_of_quotient_def)

lemma setup_epochs_member_index:
  "ensemble_properties cfg = Some ep \<Longrightarrow> recognised ep \<Longrightarrow> cycle_length ep \<noteq> 0 \<Longrightarrow>
     member_index (snd (setup_epochs cfg s)) =
       Some (int_of_quotient (start_epoch cfg) (cycle_length ep))"
  by (simp add: setup_epochs_def Let_def)

lemma ensemble_step_cadence:
  assumes "ensemble_properties cfg = Some ep" and "recognised ep"
    and "member_index s = Some k" and "performance s = Some p"
    and "ensemble_step w cfg e s = (None, s')"
  shows "if e + 1 \<in> set (checkpoints ep)
         then member_index s' = Some (k + 1) \<and>
              trace s' = trace s @ SaveEnsembleCheckpoint p k #
                (if ensemble_type ep = Some ''deep_ensemble'' then [ReInitialiseModel] else [])
         else s' = s"
  using assms
  by (auto simp: ensemble_step_def Let_def invoke_def split: option.splits if_splits)

text \<open>
  Claim C2.  Without a validation set \<open>performance\<close> is never bound: at the first
  epoch whose successor is a checkpoint the loop raises a \<open>NameError\<close> instead of
  saving the ensemble member.
\<close>

theorem ensemble_checkpoint_without_validation:
  "ensemble_properties (ensemble_run False ''snapshot_ensemble'' 1 1) =
     Some \<lparr>ensemble_type = Some ''snapshot_ensemble'', ensemble_size = 1, cycle_length = 1, initial_lr = 1 / 10\<rparr> \<and>
   0 + 1 \<in> set (checkpoints
     \<lparr>ensemble_type = Some ''snapshot_ensemble'', ensemble_size = 1, cycle_length = 1, initial_lr = 1 / 10\<rparr>) \<and>
   fst (main quiet (ensemble_run False ''snapshot_ensemble'' 1 1)) =
     Some (NameError ''performance'') \<and>
   trace (snd (main quiet (ensemble_run False ''snapshot_ensemble'' 1 1))) =
     [Train 0, ExportScalars ''train'', CloseSummary ''train'']"
  by code_simp

section \<open>Properties of the learning rate\<close>

text \<open>
  Claim C6.  At an epoch that is a multiple of a non-zero cycle length the cyclic
  annealing returns the initial learning rate, and that is the rate \<open>train\<close> reports
  for a snapshot ensemble.
\<close>

theorem cyclic_lr_restarts:
  assumes "len \<noteq> 0" and "len dvd e"
  shows "adjust_cyclic_annealing_lr e lr0 len = Inr lr0 \<and>
         train_lr lr sched
           (Some \<lparr>ensemble_type = Some ''snapshot_ensemble'', ensemble_size = n,
                  cycle_length = len, initial_lr = lr0\<rparr>) e = Inr lr0"
  using assms by (simp add: adjust_cyclic_annealing_lr_def train_lr_def)

theorem cyclic_lr_restarts_witness:
  "(3::int) \<noteq> 0 \<and> (3::int) dvd 6 \<and> adjust_cyclic_annealing_lr 6 (1 / 10) 3 = Inr (1 / 10)"
  using cyclic_lr_restarts[of 3 6 "1 / 10"] by simp

section \<open>Properties of the validation\<close>

subsection \<open>Stored targets and the samples of a class\<close>

lemma auc_samples_set:
  "set (auc_samples y) = {j. j < length y \<and> (y ! j = 0 \<or> y ! j = 1)}"
  by (auto simp: auc_samples_def)










subsection \<open>The AUC of every class\<close>

lemma class_auc_cases:
  assumes "class_auc roc y p = Inr a"
  shows "if 0 \<in> set y \<and> 1 \<in> set y
         then roc (map (\<lambda>j. y ! j) (auc_samples y)) (map (\<lambda>j. p ! j) (auc_samples y)) = Inr a \<or>
              (roc (map (\<lambda>j. y ! j) (auc_samples y)) (map (\<lambda>j. p ! j) (auc_samples y)) =
                 Inl ValueError \<and> a = 1 / 2)
         else a = 1 / 2"
  using assms by (auto simp: class_auc_def Let_def split: sum.splits exn.splits if_splits)

lemma class_aucs_nth:
  "class_aucs roc st is = Inr aucs \<Longrightarrow>
     length aucs = length is \<and>
     (\<forall>k<length is. class_auc roc (column (is ! k) (targets st)) (column (is ! k) (predictions st)) =
        Inr (aucs ! k))"
proof (induction "is" arbitrary: aucs)
  case Nil
  then show ?case by simp
next
  case (Cons i "is")
  from Cons.prems obtain a as where
    a: "class_auc roc (column i (targets st)) (column i (predictions st)) = Inr a"
    and as: "class_aucs roc st is = Inr as" and eq: "aucs = a # as"
    by (auto split: sum.splits)
  from Cons.IH[OF as] a eq show ?case by (auto simp: nth_Cons split: nat.splits)
qed

lemma class_auc_total:
  assumes "\<forall>y p x. roc y p = Inl x \<longrightarrow> x = ValueError"
  shows "\<exists>a. class_auc roc y p = Inr a"
proof (cases "roc (map (\<lambda>j. y ! j) (auc_samples y)) (map (\<lambda>j. p ! j) (auc_samples y))")
  case (Inl x)
  with assms have "x = ValueError" by blast
  with Inl have "class_auc roc y p = Inr (1 / 2)" by (simp add: class_auc_def Let_def)
  then show ?thesis ..
next
  case (Inr a)
  then have "class_auc roc y p = Inr (if 0 \<in> set y \<and> 1 \<in> set y then a else 1 / 2)"
    by (simp add: class_auc_def Let_def)
  then show ?thesis ..
qed

lemma class_aucs_total:
  assumes "\<forall>y p x. roc y p = Inl x \<longrightarrow> x = ValueError"
  shows "\<exists>aucs. class_aucs roc st is = Inr aucs"
proof (induction "is")
  case Nil
  then show ?case by simp
next
  case (Cons i "is")
  from class_auc_total[OF assms] obtain a where
    "class_auc roc (column i (targets st)) (column i (predictions st)) = Inr a" by blast
  with Cons show ?case by auto
qed

text \<open>
  Claim C4.  When the loop over the classes returns, it returns one value per class:
  0.5 when the class's target column lacks a 0 or lacks a 1, 0.5 when
  \<open>roc_auc_score\<close> raises a \<open>ValueError\<close>, and otherwise the value of
  \<open>roc_auc_score\<close> on the rows whose stored target is 0 or 1.  The loop returns
  whenever \<open>roc_auc_score\<close> raises nothing but \<open>ValueError\<close>.
\<close>

theorem class_auc_values:
  "(class_aucs roc st [0..<n] = Inr aucs \<and> i < n \<longrightarrow>
      length aucs = n \<and>
      (let y = column i (targets st); p = column i (predictions st);
           r = roc (map (\<lambda>j. y ! j) (auc_samples y)) (map (\<lambda>j. p ! j) (auc_samples y))
       in if 0 \<in> set y \<and> 1 \<in> set y
          then r = Inr (aucs ! i) \<or> (r = Inl ValueError \<and> aucs ! i = 1 / 2)
          else aucs ! i = 1 / 2)) \<and>
   ((\<forall>y p x. roc y p = Inl x \<longrightarrow> x = ValueError) \<longrightarrow>
      (\<exists>aucs. class_aucs roc st [0..<n] = Inr aucs)) \<and>
   set (auc_samples y) = {j. j < length y \<and> (y ! j = 0 \<or> y ! j = 1)}"
proof (intro conjI impI)
  assume a: "class_aucs roc st [0..<n] = Inr aucs \<and> i < n"
  from class_aucs_nth[of roc st "[0..<n]" aucs] a
  have len: "length aucs = n"
    and c: "class_auc roc (column i (targets st)) (column i (predictions st)) = Inr (aucs ! i)"
    by auto
  from len show "length aucs = n" .
  from class_auc_cases[OF c]
  show "let y = column i (targets st); p = column i (predictions st);
           r = roc (map (\<lambda>j. y ! j) (auc_samples y)) (map (\<lambda>j. p ! j) (auc_samples y))
       in if 0 \<in> set y \<and> 1 \<in> set y
          then r = Inr (aucs ! i) \<or> (r = Inl ValueError \<and> aucs ! i = 1 / 2)
          else aucs ! i = 1 / 2"
    by (simp add: Let_def)
next
  assume "\<forall>y p x. roc y p = Inl x \<longrightarrow> x = ValueError"
  then show "\<exists>aucs. class_aucs roc st [0..<n] = Inr aucs" by (rule class_aucs_total)
next
  show "set (auc_samples y) = {j. j < length y \<and> (y ! j = 0 \<or> y ! j = 1)}"
    by (rule auc_samples_set)
qed


theorem class_auc_values_witness:
  "class_aucs wins
     \<lparr>predictions = [[3 / 10, 3 / 8], [4 / 5, 1 / 2]], targets = [[0, 1 / 2], [1, 1]],
      sample_keys = [''P1-A01'', ''P1-B02'']\<rparr> [0..<2] = Inr [1, 1 / 2] \<and>
   (0::nat) < 2 \<and>
   wins [0, 1] [3 / 10, 4 / 5] = Inr ([1, 1 / 2] ! 0) \<and>
   (\<exists>aucs. class_aucs wins
     \<lparr>predictions = [[3 / 10, 3 / 8], [4 / 5, 1 / 2]], targets = [[0, 1 / 2], [1, 1]],
      sample_keys = [''P1-A01'', ''P1-B02'']\<rparr> [0..<2] = Inr aucs)"
proof -
  let ?S = "\<lparr>predictions = [[3 / 10, 3 / 8], [4 / 5, 1 / 2]], targets = [[0, 1 / 2], [1, 1]],
      sample_keys = [''P1-A01'', ''P1-B02'']\<rparr>"
  note T = class_auc_values[of wins ?S 2 "[1, 1 / 2]" 0]
  have run: "class_aucs wins ?S [0..<2] = Inr [1, 1 / 2]"
    by code_simp
  have only: "\<forall>y p x. wins y p = Inl x \<longrightarrow> x = ValueError"
    by (simp add: wins_def)
  have col: "column 0 (targets ?S) = [0, 1]" "column 0 (predictions ?S) = [3 / 10, 4 / 5]"
    by (simp_all add: column_def)
  have smp: "auc_samples [0, 1] = [0, 1]"
    by code_simp
  have h: "class_aucs wins ?S [0..<2] = Inr [1, 1 / 2] \<and> (0::nat) < 2"
    using run by simp
  note T1 = T[THEN conjunct1, THEN mp, OF h, THEN conjunct2]
  have a: "wins [0, 1] [3 / 10, 4 / 5] = Inr ([1, 1 / 2] ! 0)"
    using T1 unfolding Let_def col smp by simp
  note b = T[THEN conjunct2, THEN conjunct1, THEN mp, OF only]
  from run a b show ?thesis by simp
qed

subsection \<open>Grouping the views of a well: properties\<close>

lemma split_on_unfold:
  "split_on c s =
     takeWhile (\<lambda>x. x \<noteq> c) s #
       (case dropWhile (\<lambda>x. x \<noteq> c) s of [] \<Rightarrow> [] | _ # rest \<Rightarrow> split_on c rest)"
  by (induction s) (auto split: list.splits)

lemma group_key_no_dash: "CHR ''-'' \<notin> set k \<Longrightarrow> group_key k = k"
proof -
  assume "CHR ''-'' \<notin> set k"
  then have tk: "takeWhile (\<lambda>x. x \<noteq> CHR ''-'') k = k"
    and dk: "dropWhile (\<lambda>x. x \<noteq> CHR ''-'') k = []"
    by (auto simp: takeWhile_eq_all_conv dropWhile_eq_Nil_conv)
  have "split_on CHR ''-'' k = [k]"
    by (subst split_on_unfold) (simp only: tk dk list.case)
  then show ?thesis by (simp add: group_key_def)
qed

lemma group_key_two_tokens:
  assumes "CHR ''-'' \<notin> set a" and "CHR ''-'' \<notin> set b"
  shows "group_key (a @ ''-'' @ b) = a @ ''-'' @ b"
    and "group_key (a @ ''-'' @ b @ ''-'' @ rest) = a @ ''-'' @ b"
proof -
  have na: "x \<noteq> CHR ''-''" if "x \<in> set a" for x using that assms(1) by blast
  have nb: "x \<noteq> CHR ''-''" if "x \<in> set b" for x using that assms(2) by blast
  have tw: "takeWhile (\<lambda>x. x \<noteq> CHR ''-'') (a @ CHR ''-'' # t) = a"
    and dw: "dropWhile (\<lambda>x. x \<noteq> CHR ''-'') (a @ CHR ''-'' # t) = CHR ''-'' # t" for t
    by (simp_all add: na)
  have tw': "takeWhile (\<lambda>x. x \<noteq> CHR ''-'') (b @ CHR ''-'' # t) = b" for t
    by (simp add: nb)
  have s1: "split_on CHR ''-'' (a @ CHR ''-'' # t) = a # split_on CHR ''-'' t" for t
    by (subst split_on_unfold) (simp add: tw dw)
  have tb: "takeWhile (\<lambda>x. x \<noteq> CHR ''-'') b = b"
    and db: "dropWhile (\<lambda>x. x \<noteq> CHR ''-'') b = []"
    using assms(2) by (auto simp: takeWhile_eq_all_conv dropWhile_eq_Nil_conv)
  have sb: "split_on CHR ''-'' b = [b]"
    by (subst split_on_unfold) (simp only: tb db list.case)
  have s2: "\<exists>ts. split_on CHR ''-'' (b @ CHR ''-'' # rest) = b # ts"
    by (subst split_on_unfold) (simp add: tw')
  show "group_key (a @ ''-'' @ b) = a @ ''-'' @ b"
    by (simp add: group_key_def s1 sb)
  from s2 obtain ts where "split_on CHR ''-'' (b @ CHR ''-'' # rest) = b # ts" by blast
  then show "group_key (a @ ''-'' @ b @ ''-'' @ rest) = a @ ''-'' @ b"
    by (simp add: group_key_def s1)
qed

lemma add_to_group_keys:
  "map fst (add_to_group k r gs) = (if k \<in> fst ` set gs then map fst gs else map fst gs @ [k])"
  by (induction gs) (force simp: image_iff)+

lemma add_to_group_map_of:
  "map_of (add_to_group k r gs) =
     (map_of gs)(k \<mapsto> (case map_of gs k of None \<Rightarrow> [r] | Some rs \<Rightarrow> rs @ [r]))"
  by (induction gs) (auto simp: fun_upd_twist)

lemma collect_groups_snoc:
  "collect_groups by (df @ [(i, r)]) = add_to_group (by i) r (collect_groups by df)"
  by (simp add: collect_groups_def)

lemma collect_groups_keys:
  "distinct (map fst (collect_groups by df)) \<and>
   fst ` set (collect_groups by df) = (\<lambda>x. by (fst x)) ` set df"
proof (induction df rule: rev_induct)
  case Nil
  then show ?case by (simp add: collect_groups_def)
next
  case (snoc x df)
  obtain i r where x: "x = (i, r)" by (cases x)
  have "set (map fst (add_to_group (by i) r (collect_groups by df))) =
        insert (by i) (fst ` set (collect_groups by df))"
    by (auto simp: add_to_group_keys)
  then have "fst ` set (add_to_group (by i) r (collect_groups by df)) =
        insert (by i) (fst ` set (collect_groups by df))"
    by simp
  with snoc show ?case
    unfolding x collect_groups_snoc by (auto simp: add_to_group_keys)
qed

lemma collect_groups_map_of:
  "map_of (collect_groups by df) k =
     (if k \<in> (\<lambda>x. by (fst x)) ` set df
      then Some (map snd (filter (\<lambda>x. by (fst x) = k) df)) else None)"
proof (induction df rule: rev_induct)
  case Nil
  then show ?case by (simp add: collect_groups_def)
next
  case (snoc x df)
  obtain i r where x: "x = (i, r)" by (cases x)
  show ?case
    unfolding x collect_groups_snoc add_to_group_map_of
    using snoc by (force simp: image_iff filter_empty_conv)
qed


lemma distinct_map_insort_key:
  "distinct (map f (insort_key f x xs)) \<longleftrightarrow> f x \<notin> f ` set xs \<and> distinct (map f xs)"
  by (induction xs) (auto simp: set_insort_key)

lemma distinct_map_sort_key: "distinct (map f (sort_key f xs)) \<longleftrightarrow> distinct (map f xs)"
  by (induction xs) (simp_all add: distinct_map_insort_key)

lemma groupby_keys:
  "sorted (map fst (groupby by df))" "distinct (map fst (groupby by df))"
  "set (map fst (groupby by df)) = (\<lambda>x. by (fst x)) ` set df"
  using collect_groups_keys[of "by" df]
  by (simp_all add: groupby_def distinct_map_sort_key)

lemma groupby_nth:
  assumes "g < length (groupby by df)"
  shows "snd (groupby by df ! g) =
           map snd (filter (\<lambda>x. by (fst x) = fst (groupby by df ! g)) df) \<and>
         snd (groupby by df ! g) \<noteq> []"
proof -
  obtain k rs where kr: "groupby by df ! g = (k, rs)" by (cases "groupby by df ! g")
  from assms have "groupby by df ! g \<in> set (groupby by df)" by (rule nth_mem)
  with kr have "(k, rs) \<in> set (collect_groups by df)" by (simp add: groupby_def)
  with collect_groups_keys[of "by" df] have "map_of (collect_groups by df) k = Some rs"
    by simp
  then have "k \<in> (\<lambda>x. by (fst x)) ` set df \<and>
             rs = map snd (filter (\<lambda>x. by (fst x) = k) df)"
    by (simp add: collect_groups_map_of split: if_splits)
  then have "rs = map snd (filter (\<lambda>x. by (fst x) = k) df) \<and> rs \<noteq> []"
    by (auto simp: filter_empty_conv)
  with kr show ?thesis by auto
qed

lemma mean_rows_nth:
  "c < n \<Longrightarrow> mean_rows n rs ! c = (\<Sum>r\<leftarrow>rs. r ! c) / real (length rs)"
  by (simp add: mean_rows_def)

lemma sort_index_sorted: "sorted (map fst df) \<Longrightarrow> sort_index df = df"
  by (simp add: sort_index_def sort_key_id_if_sorted)

lemma aggregate_eq:
  assumes "length (predictions st) = length (sample_keys st)"
    and "length (targets st) = length (sample_keys st)"
  shows "aggregate n st =
     Inr \<lparr>predictions =
            map (\<lambda>g. mean_rows n (snd g)) (groupby group_key (zip (sample_keys st) (predictions st))),
          targets =
            map (\<lambda>g. hd (snd g)) (groupby group_key (zip (sample_keys st) (targets st))),
          sample_keys = map fst (groupby group_key (zip (sample_keys st) (targets st)))\<rparr>"
proof -
  let ?GP = "groupby group_key (zip (sample_keys st) (predictions st))"
  let ?GT = "groupby group_key (zip (sample_keys st) (targets st))"
  have kp: "map fst (group_mean n ?GP) = map fst ?GP"
    by (simp add: group_mean_def case_prod_beta)
  have kt: "map fst (group_first ?GT) = map fst ?GT"
    by (simp add: group_first_def case_prod_beta)
  have sp: "sort_index (group_mean n ?GP) = group_mean n ?GP"
    by (rule sort_index_sorted) (simp add: kp groupby_keys)
  have st': "sort_index (group_first ?GT) = group_first ?GT"
    by (rule sort_index_sorted) (simp add: kt groupby_keys)
  have vp: "map snd (group_mean n ?GP) = map (\<lambda>g. mean_rows n (snd g)) ?GP"
    by (simp add: group_mean_def case_prod_beta)
  have ne: "snd g \<noteq> []" if "g \<in> set ?GT" for g
  proof -
    from that obtain j where "j < length ?GT" "?GT ! j = g" by (auto simp: in_set_conv_nth)
    with groupby_nth[of j group_key] show ?thesis by auto
  qed
  have vt: "map snd (group_first ?GT) = map (\<lambda>g. hd (snd g)) ?GT"
    using ne by (auto simp: group_first_def case_prod_beta split: list.splits)
  from assms show ?thesis
    by (simp add: aggregate_def data_frame_def Let_def sp st' vp vt kt)
qed


text \<open>
  Claim C5.  For stored predictions and targets with one row per sample key, the
  aggregation returns one row per group key, the group keys sorted and without
  repetition, and they are the keys \<open>group_key\<close> gives to the sample IDs.  The
  prediction row of a group is, column by column, the arithmetic mean of the prediction
  rows of the samples of that group, and its target row is the first target row of the
  group.  \<open>group_key\<close> joins the first two dash-separated tokens of an ID with a dash.
\<close>

theorem aggregate_groups:
  "(length (predictions st) = length (sample_keys st) \<and>
    length (targets st) = length (sample_keys st) \<longrightarrow>
      (\<exists>agg. aggregate n st = Inr agg \<and>
         sorted (sample_keys agg) \<and> distinct (sample_keys agg) \<and>
         set (sample_keys agg) = group_key ` set (sample_keys st) \<and>
         length (predictions agg) = length (sample_keys agg) \<and>
         length (targets agg) = length (sample_keys agg) \<and>
         (\<forall>g<length (sample_keys agg).
            let k = sample_keys agg ! g;
                ps = map snd (filter (\<lambda>x. group_key (fst x) = k)
                       (zip (sample_keys st) (predictions st)));
                ts = map snd (filter (\<lambda>x. group_key (fst x) = k)
                       (zip (sample_keys st) (targets st)))
            in ps \<noteq> [] \<and> ts \<noteq> [] \<and> length (predictions agg ! g) = n \<and>
               (\<forall>c<n. predictions agg ! g ! c = (\<Sum>r\<leftarrow>ps. r ! c) / real (length ps)) \<and>
               targets agg ! g = hd ts))) \<and>
   (CHR ''-'' \<notin> set a \<and> CHR ''-'' \<notin> set b \<longrightarrow>
      group_key a = a \<and> group_key (a @ ''-'' @ b) = a @ ''-'' @ b \<and>
      group_key (a @ ''-'' @ b @ ''-'' @ rest) = a @ ''-'' @ b)"
proof (rule conjI[rotated], rule impI, rule_tac [2] impI)
  assume "CHR ''-'' \<notin> set a \<and> CHR ''-'' \<notin> set b"
  then show "group_key a = a \<and> group_key (a @ ''-'' @ b) = a @ ''-'' @ b \<and>
      group_key (a @ ''-'' @ b @ ''-'' @ rest) = a @ ''-'' @ b"
    using group_key_no_dash[of a] group_key_two_tokens(1)[of a b]
      group_key_two_tokens(2)[of a b rest] by blast
next
  assume len: "length (predictions st) = length (sample_keys st) \<and>
    length (targets st) = length (sample_keys st)"
  let ?K = "sample_keys st"
  let ?GP = "groupby group_key (zip ?K (predictions st))"
  let ?GT = "groupby group_key (zip ?K (targets st))"
  let ?agg = "\<lparr>predictions = map (\<lambda>g. mean_rows n (snd g)) ?GP,
               targets = map (\<lambda>g. hd (snd g)) ?GT, sample_keys = map fst ?GT\<rparr>"
  from len have agg: "aggregate n st = Inr ?agg" by (simp add: aggregate_eq)
  have img: "(\<lambda>x. group_key (fst x)) ` set (zip ?K rows) = group_key ` set ?K"
    if "length rows = length ?K" for rows :: "real list list"
  proof -
    have "(\<lambda>x. group_key (fst x)) ` set (zip ?K rows) = group_key ` set (map fst (zip ?K rows))"
      by (simp add: image_image)
    with that show ?thesis by simp
  qed
  have setT: "set (map fst ?GT) = group_key ` set ?K"
    using groupby_keys(3)[of group_key "zip ?K (targets st)"] img[of "targets st"] len by simp
  have setP: "set (map fst ?GP) = group_key ` set ?K"
    using groupby_keys(3)[of group_key "zip ?K (predictions st)"] img[of "predictions st"] len
    by simp
  have same: "map fst ?GP = map fst ?GT"
    by (rule sorted_distinct_set_unique) (simp_all only: groupby_keys(1,2) setT setP)
  then have lenG: "length ?GP = length ?GT" by (metis length_map)
  have rows: "let k = sample_keys ?agg ! g;
                ps = map snd (filter (\<lambda>x. group_key (fst x) = k) (zip ?K (predictions st)));
                ts = map snd (filter (\<lambda>x. group_key (fst x) = k) (zip ?K (targets st)))
            in ps \<noteq> [] \<and> ts \<noteq> [] \<and> length (predictions ?agg ! g) = n \<and>
               (\<forall>c<n. predictions ?agg ! g ! c = (\<Sum>r\<leftarrow>ps. r ! c) / real (length ps)) \<and>
               targets ?agg ! g = hd ts"
    if g: "g < length (sample_keys ?agg)" for g
  proof -
    from g have gT: "g < length ?GT" by simp
    with lenG have gP: "g < length ?GP" by simp
    have kT: "sample_keys ?agg ! g = fst (?GT ! g)" using gT by simp
    have "fst (?GP ! g) = map fst ?GP ! g" using gP by simp
    also have "\<dots> = fst (?GT ! g)" using same gT by simp
    finally have kP: "fst (?GP ! g) = fst (?GT ! g)" .
    note p = groupby_nth[OF gP, THEN conjunct1, unfolded kP] groupby_nth[OF gP, THEN conjunct2]
    note t = groupby_nth[OF gT, THEN conjunct1] groupby_nth[OF gT, THEN conjunct2]
    have pa: "predictions ?agg ! g = mean_rows n (snd (?GP ! g))" using gP by simp
    have ta: "targets ?agg ! g = hd (snd (?GT ! g))" using gT by simp
    have ln: "length (mean_rows n (snd (?GP ! g))) = n" by (simp add: mean_rows_def)
    show ?thesis
      unfolding Let_def kT pa ta p(1)[symmetric] t(1)[symmetric]
      using p(2) t(2) ln by (simp add: mean_rows_nth)
  qed
  have k1: "sorted (sample_keys ?agg)" "distinct (sample_keys ?agg)"
    by (simp_all add: groupby_keys)
  have k2: "set (sample_keys ?agg) = group_key ` set ?K" using setT by simp
  have k3: "length (predictions ?agg) = length (sample_keys ?agg)"
    "length (targets ?agg) = length (sample_keys ?agg)"
    using lenG by simp_all
  from agg k1 k2 k3 rows
  show "\<exists>agg. aggregate n st = Inr agg \<and>
         sorted (sample_keys agg) \<and> distinct (sample_keys agg) \<and>
         set (sample_keys agg) = group_key ` set (sample_keys st) \<and>
         length (predictions agg) = length (sample_keys agg) \<and>
         length (targets agg) = length (sample_keys agg) \<and>
         (\<forall>g<length (sample_keys agg).
            let k = sample_keys agg ! g;
                ps = map snd (filter (\<lambda>x. group_key (fst x) = k)
                       (zip (sample_keys st) (predictions st)));
                ts = map snd (filter (\<lambda>x. group_key (fst x) = k)
                       (zip (sample_keys st) (targets st)))
            in ps \<noteq> [] \<and> ts \<noteq> [] \<and> length (predictions agg ! g) = n \<and>
               (\<forall>c<n. predictions agg ! g ! c = (\<Sum>r\<leftarrow>ps. r ! c) / real (length ps)) \<and>
               targets agg ! g = hd ts)"
    by (intro exI[of _ ?agg] conjI allI impI) blast+
qed


theorem aggregate_groups_witness:
  "length [[1 / 5, 1 / 2], [4 / 5, 1 / 2], [2 / 5, 1 / 4 :: real]] =
     length [''P1-A01-1'', ''P1-B02-1'', ''P1-A01-2''] \<and>
   (\<exists>agg. aggregate 2
       \<lparr>predictions = [[1 / 5, 1 / 2], [4 / 5, 1 / 2], [2 / 5, 1 / 4]],
        targets = [[0, 1 / 2], [1, 1], [0, 1 / 2]],
        sample_keys = [''P1-A01-1'', ''P1-B02-1'', ''P1-A01-2'']\<rparr> = Inr agg \<and>
      sorted (sample_keys agg) \<and> set (sample_keys agg) = {''P1-A01'', ''P1-B02''}) \<and>
   CHR ''-'' \<notin> set ''P1'' \<and> CHR ''-'' \<notin> set ''A01'' \<and>
   group_key ''P1-A01-1'' = ''P1-A01''"
proof -
  let ?S = "\<lparr>predictions = [[1 / 5, 1 / 2], [4 / 5, 1 / 2], [2 / 5, 1 / 4]],
        targets = [[0, 1 / 2], [1, 1], [0, 1 / 2]],
        sample_keys = [''P1-A01-1'', ''P1-B02-1'', ''P1-A01-2'']\<rparr>"
  note T = aggregate_groups[of ?S 2 "''P1''" "''A01''" "''1''"]
  have lens: "length (predictions ?S) = length (sample_keys ?S) \<and>
              length (targets ?S) = length (sample_keys ?S)"
    by simp
  have nd: "CHR ''-'' \<notin> set ''P1'' \<and> CHR ''-'' \<notin> set ''A01''" by simp
  from T[THEN conjunct1, THEN mp, OF lens] obtain agg where
    a: "aggregate 2 ?S = Inr agg" and s: "sorted (sample_keys agg)"
    and k: "set (sample_keys agg) = group_key ` set (sample_keys ?S)"
    by blast
  have "group_key ` set (sample_keys ?S) = {''P1-A01'', ''P1-B02''}"
    by (auto simp: group_key_def)
  with k have k': "set (sample_keys agg) = {''P1-A01'', ''P1-B02''}" by simp
  from T[THEN conjunct2, THEN mp, OF nd]
  have g: "group_key ''P1-A01-1'' = ''P1-A01''" by simp
  from a s k' have "\<exists>agg. aggregate 2 ?S = Inr agg \<and> sorted (sample_keys agg) \<and>
      set (sample_keys agg) = {''P1-A01'', ''P1-B02''}"
    by blast
  with nd g show ?thesis by simp
qed

subsection \<open>Validation as a whole\<close>







end
